theory Spec2Isabelle
  imports Complex_Main "HOL-Library.Multiset"
begin

section \<open>Tensors, errors and the elementary tensor operations\<close>

text \<open>
  The model in \<^verbatim>\<open>mlpf/tfmodel/model.py\<close> is written against a tensor runtime.
  Tensors are embedded as nested lists (a vector is a list, a matrix a list of rows, and
  so on), and their entries as mathematical reals: rounding, infinities and NaN of the
  floating-point types are not part of the embedding. Integer tensors (bin indices,
  element indices) are integers or naturals. An operation that raises in the runtime
  returns \<open>Inl\<close> of an error.
\<close>

datatype error =
    InvalidArgument   \<comment> \<open>the tensor runtime rejects shapes or indices\<close>
  | KeyError          \<comment> \<open>Python dictionary lookup or \<open>pop\<close> of a missing key\<close>
  | UnboundLocalError \<comment> \<open>Python local variable read before assignment\<close>
  | TypeError         \<comment> \<open>a call with a keyword argument the callee does not accept\<close>

type_synonym vec = "real list"
type_synonym mat = "real list list"

text \<open>Running a fallible function over a list stops at the first error.\<close>

fun sequence_err :: "(error + 'a) list \<Rightarrow> error + 'a list" where
  "sequence_err [] = Inr []"
| "sequence_err (r # rs) =
     (case r of
        Inl e \<Rightarrow> Inl e
      | Inr x \<Rightarrow> (case sequence_err rs of Inl e \<Rightarrow> Inl e | Inr xs \<Rightarrow> Inr (x # xs)))"

text \<open>
  \<^verbatim>\<open>tf.argmax(v, axis=-1)\<close> on one row: the position of the largest entry, the
  smallest such position on ties. The runtime rejects an empty reduction axis.
\<close>

fun argmax_from :: "real \<Rightarrow> nat \<Rightarrow> nat \<Rightarrow> real list \<Rightarrow> nat" where
  "argmax_from best besti i [] = besti"
| "argmax_from best besti i (x # xs) =
     (if best < x then argmax_from x i (Suc i) xs else argmax_from best besti (Suc i) xs)"

definition argmax :: "real list \<Rightarrow> error + nat" where
  "argmax v = (case v of [] \<Rightarrow> Inl InvalidArgument | x # xs \<Rightarrow> Inr (argmax_from x 0 1 xs))"

text \<open>
  \<^verbatim>\<open>tf.argsort(keys)\<close>: the positions \<open>0..n-1\<close> ordered by ascending key. The
  runtime does not promise an order among equal keys; the embedding fixes the stable one.
\<close>

definition argsort :: "int list \<Rightarrow> nat list" where
  "argsort keys = sort_key (\<lambda>i. keys ! i) [0..<length keys]"

text \<open>
  \<^verbatim>\<open>tf.reshape(v, (rows, cols))\<close> of a flat vector: consecutive groups of \<open>cols\<close>
  entries; the runtime rejects a vector whose size is not \<open>rows * cols\<close>.
\<close>

fun chunks :: "nat \<Rightarrow> nat \<Rightarrow> 'a list \<Rightarrow> 'a list list" where
  "chunks 0 sz xs = []"
| "chunks (Suc n) sz xs = take sz xs # chunks n sz (drop sz xs)"

definition reshape2 :: "nat \<Rightarrow> nat \<Rightarrow> 'a list \<Rightarrow> error + 'a list list" where
  "reshape2 rows cols xs =
     (if length xs = rows * cols then Inr (chunks rows cols xs) else Inl InvalidArgument)"

section \<open>Bin assignment\<close>

text \<open>
  \<^verbatim>\<open>
  def split_indices_to_bins(cmul, nbins, bin_size):
      bin_idx = tf.argmax(cmul, axis=-1)
      bins_split = tf.reshape(tf.argsort(bin_idx), (nbins, bin_size))
      return bins_split
  \<close>
  \<open>cmul\<close> is the (n_points, width) matrix of hash scores of one event.
\<close>

definition split_indices_to_bins :: "mat \<Rightarrow> nat \<Rightarrow> nat \<Rightarrow> error + nat list list" where
  "split_indices_to_bins cmul nbins bin_size =
     (case sequence_err (map argmax cmul) of
        Inl e \<Rightarrow> Inl e
      | Inr bin_idx \<Rightarrow> reshape2 nbins bin_size (argsort (map int bin_idx)))"

text \<open>
  \<^verbatim>\<open>
  def split_indices_to_bins_batch(cmul, nbins, bin_size, msk):
      bin_idx = tf.argmax(cmul, axis=-1) + tf.cast(tf.where(~msk, nbins-1, 0), tf.int64)
      bins_split = tf.reshape(tf.argsort(bin_idx), (tf.shape(cmul)[0], nbins, bin_size))
      return bins_split
  \<close>
  \<open>bin_idx_masked\<close> is the bin index of one element; \<open>msk\<close> is \<open>True\<close> for a valid
  element. The mask of an event has one entry per element (it is computed from the same
  input as the scores); another length is rejected when the two are added.
\<close>

definition bin_idx_masked :: "nat \<Rightarrow> vec \<Rightarrow> bool \<Rightarrow> error + int" where
  "bin_idx_masked nbins scores m =
     (case argmax scores of
        Inl e \<Rightarrow> Inl e
      | Inr a \<Rightarrow> Inr (int a + (if \<not> m then int nbins - 1 else 0)))"

definition split_indices_to_bins_event ::
  "mat \<Rightarrow> nat \<Rightarrow> nat \<Rightarrow> bool list \<Rightarrow> error + nat list list" where
  "split_indices_to_bins_event cmul nbins bin_size msk =
     (if length msk \<noteq> length cmul then Inl InvalidArgument
      else case sequence_err (map2 (bin_idx_masked nbins) cmul msk) of
        Inl e \<Rightarrow> Inl e
      | Inr bin_idx \<Rightarrow> reshape2 nbins bin_size (argsort bin_idx))"

definition split_indices_to_bins_batch ::
  "mat list \<Rightarrow> nat \<Rightarrow> nat \<Rightarrow> bool list list \<Rightarrow> error + nat list list list" where
  "split_indices_to_bins_batch cmul nbins bin_size msk =
     (if length msk \<noteq> length cmul then Inl InvalidArgument
      else sequence_err
             (map2 (\<lambda>c m. split_indices_to_bins_event c nbins bin_size m) cmul msk))"

section \<open>Forward bin gather and inverse bin scatter\<close>

text \<open>
  \<^verbatim>\<open>tf.gather(params, indices, batch_dims=1)\<close>, as the graph builders use it: entry
  \<open>(k, j)\<close> of the result of one event is the row \<open>indices[k][j]\<close> of that event's
  \<open>params\<close>. An index outside \<open>0..n-1\<close> is rejected.
\<close>

definition gather :: "'a list \<Rightarrow> nat list list \<Rightarrow> error + 'a list list" where
  "gather params indices =
     (if \<forall>bin \<in> set indices. \<forall>i \<in> set bin. i < length params
      then Inr (map (map (\<lambda>i. params ! i)) indices)
      else Inl InvalidArgument)"

definition gather_batch :: "'a list list \<Rightarrow> nat list list list \<Rightarrow> error + 'a list list list" where
  "gather_batch params indices =
     (if length indices \<noteq> length params then Inl InvalidArgument
      else sequence_err (map2 gather params indices))"

text \<open>
  \<^verbatim>\<open>tf.scatter_nd(indices, updates, shape)\<close> on one event: starting from zeros, each
  update row is added to the row its index names (rows named twice accumulate); an index
  outside the shape is rejected, and so are indices given for an output without entries
  (no points or no features).
\<close>

fun scatter_add :: "(nat \<times> vec) list \<Rightarrow> mat \<Rightarrow> error + mat" where
  "scatter_add [] acc = Inr acc"
| "scatter_add ((i, u) # rest) acc =
     (if i < length acc then scatter_add rest (acc[i := map2 (+) (acc ! i) u])
      else Inl InvalidArgument)"

definition scatter_nd :: "nat list \<Rightarrow> vec list \<Rightarrow> nat \<Rightarrow> nat \<Rightarrow> error + mat" where
  "scatter_nd indices updates n_points n_features =
     (if length indices \<noteq> length updates then Inl InvalidArgument
      else if indices \<noteq> [] \<and> n_points * n_features = 0 then Inl InvalidArgument
      else scatter_add (zip indices updates) (replicate n_points (replicate n_features 0)))"

text \<open>
  \<^verbatim>\<open>
  def reverse_lsh(bins_split, points_binned_enc):
      shp = tf.shape(points_binned_enc)
      batch_dim = shp[0]
      n_points = shp[1]*shp[2]
      n_features = shp[-1]
      bins_split_flat = tf.reshape(bins_split, (batch_dim, n_points))
      points_binned_enc_flat = tf.reshape(points_binned_enc, (batch_dim, n_points, n_features))
      batch_inds = tf.reshape(tf.repeat(tf.range(batch_dim), n_points), (batch_dim, n_points))
      bins_split_flat_batch = tf.stack([batch_inds, bins_split_flat], axis=-1)
      ret = tf.scatter_nd(bins_split_flat_batch, points_binned_enc_flat,
          shape=(batch_dim, n_points, n_features))
      return ret
  \<close>
  The batch index stacked onto every element index makes the scatter act on each event
  separately: \<open>reverse_lsh_event\<close> is the scatter of one event, \<open>reverse_lsh\<close> runs it
  over the batch. The shape is read off the nested lists.
\<close>

definition reverse_lsh_event :: "nat list list \<Rightarrow> mat list \<Rightarrow> error + mat" where
  "reverse_lsh_event bins_split points_binned_enc =
     (let points_binned_enc_flat = concat points_binned_enc;
          n_points = length points_binned_enc_flat;
          n_features = (case points_binned_enc_flat of [] \<Rightarrow> 0 | r # _ \<Rightarrow> length r);
          bins_split_flat = concat bins_split
      in if length bins_split_flat \<noteq> n_points then Inl InvalidArgument
         else scatter_nd bins_split_flat points_binned_enc_flat n_points n_features)"

definition reverse_lsh :: "nat list list list \<Rightarrow> mat list list \<Rightarrow> error + mat list" where
  "reverse_lsh bins_split points_binned_enc =
     (if length bins_split \<noteq> length points_binned_enc then Inl InvalidArgument
      else sequence_err (map2 reverse_lsh_event bins_split points_binned_enc))"

section \<open>Matrix product and the hash scores\<close>

text \<open>
  \<^verbatim>\<open>tf.linalg.matmul(A, B)\<close> for \<open>A\<close> of shape (n, k) and \<open>B\<close> of shape (k, m),
  given as lists of rows. The runtime rejects operands whose inner sizes differ. (A matrix
  with no rows has no columns in this embedding.)
\<close>

definition dot :: "vec \<Rightarrow> vec \<Rightarrow> real" where
  "dot a b = sum_list (map2 (*) a b)"

definition vecmat :: "vec \<Rightarrow> mat \<Rightarrow> vec" where
  "vecmat row B = map (dot row) (transpose B)"

definition matmul :: "mat \<Rightarrow> mat \<Rightarrow> error + mat" where
  "matmul A B =
     (if \<forall>row \<in> set A. length row = length B then Inr (map (\<lambda>row. vecmat row B) A)
      else Inl InvalidArgument)"

text \<open>
  The hash scores of one event, as both graph builders compute them:
  \<^verbatim>\<open>
  mul = tf.linalg.matmul(x_dist, self.codebook_random_rotations[:, :n_bins//2])
  cmul = tf.concat([mul, -mul], axis=-1)
  \<close>
\<close>

definition lsh_cmul :: "mat \<Rightarrow> nat \<Rightarrow> mat \<Rightarrow> error + mat" where
  "lsh_cmul codebook_random_rotations n_bins x_dist =
     (case matmul x_dist (map (take (n_bins div 2)) codebook_random_rotations) of
        Inl e \<Rightarrow> Inl e
      | Inr mul \<Rightarrow> Inr (map (\<lambda>r. r @ map uminus r) mul))"

section \<open>Input encoding\<close>

text \<open>
  \<^verbatim>\<open>tf.cast(x, tf.int32)\<close> of a float truncates toward zero (the embedding does not
  bound the result to 32 bits), and \<^verbatim>\<open>tf.one_hot(idx, depth)\<close> has a one at
  position \<open>idx\<close> and zeros elsewhere, hence only zeros for an index outside \<open>0..depth-1\<close>.
\<close>

definition cast_int32 :: "real \<Rightarrow> int" where
  "cast_int32 x = (if 0 \<le> x then \<lfloor>x\<rfloor> else \<lceil>x\<rceil>)"

definition one_hot :: "int \<Rightarrow> nat \<Rightarrow> vec" where
  "one_hot idx depth = map (\<lambda>k. if int k = idx then 1 else 0) [0..<depth]"

text \<open>
  \<^verbatim>\<open>
  class InputEncoding(tf.keras.layers.Layer):
      def call(self, X):
          Xid = tf.cast(tf.one_hot(tf.cast(X[:, :, 0], tf.int32), self.num_input_classes),
                        dtype=X.dtype)
          Xprop = X[:, :, 1:]
          return tf.concat([Xid, Xprop], axis=-1)
  \<close>
  \<open>X[:, :, 0]\<close> needs a first feature: a row without features is rejected.
\<close>

definition InputEncoding_row :: "nat \<Rightarrow> vec \<Rightarrow> vec" where
  "InputEncoding_row num_input_classes row =
     one_hot (cast_int32 (row ! 0)) num_input_classes @ drop 1 row"

definition InputEncoding_call :: "nat \<Rightarrow> mat list \<Rightarrow> error + mat list" where
  "InputEncoding_call num_input_classes X =
     (if \<exists>ev \<in> set X. \<exists>row \<in> set ev. row = [] then Inl InvalidArgument
      else Inr (map (map (InputEncoding_row num_input_classes)) X))"

section \<open>Output heads of the top-level models\<close>

text \<open>
  \<^verbatim>\<open>tf.clip_by_value(x, lo, hi)\<close>, \<^verbatim>\<open>tf.nn.softmax\<close> over the last axis, the Python
  slice \<open>v[a:b]\<close> of the last axis, and the broadcast product of two vectors (sizes must be
  equal, or one of them 1).
\<close>

definition clip_by_value :: "real \<Rightarrow> real \<Rightarrow> real \<Rightarrow> real" where
  "clip_by_value x lo hi = min (max x lo) hi"

definition softmax :: "vec \<Rightarrow> vec" where
  "softmax v = map (\<lambda>x. exp x / sum_list (map exp v)) v"

definition slice :: "nat \<Rightarrow> nat \<Rightarrow> 'a list \<Rightarrow> 'a list" where
  "slice a b v = take (b - a) (drop a v)"

definition broadcast_mul :: "vec \<Rightarrow> vec \<Rightarrow> error + vec" where
  "broadcast_mul a b =
     (if length a = length b then Inr (map2 (*) a b)
      else if length a = 1 then Inr (map (\<lambda>y. a ! 0 * y) b)
      else if length b = 1 then Inr (map (\<lambda>x. x * b ! 0) a)
      else Inl InvalidArgument)"

text \<open>The named outputs of one element, and the two forms a model returns them in.\<close>

record outputs =
  cls :: vec
  charge :: vec
  pt :: vec
  eta :: vec
  sin_phi :: vec
  cos_phi :: vec
  energy :: vec

datatype model_output = Named outputs | Concatenated vec

text \<open>
  The feed-forward heads are learned functions on the last axis, so they act on one element
  at a time; they are fields of the model. \<open>self.ffn_momentum\<close> of \<open>PFNetDense\<close> is a
  list of heads when \<open>separate_momentum\<close> is set and one head otherwise.
\<close>

datatype momentum_heads = Separate "(vec \<Rightarrow> vec) list" | Joint "vec \<Rightarrow> vec"

record PFNetDense =
  multi_output :: bool
  focal_loss_from_logits :: bool
  skip_connection :: bool
  regression_use_classification :: bool
  ffn_id :: "vec \<Rightarrow> vec"
  ffn_charge :: "vec \<Rightarrow> vec"
  ffn_momentum :: momentum_heads
  momentum_mult :: vec

text \<open>
  What the encoders and graph layers upstream of the heads deliver for one element: the
  input encoding \<open>enc\<close>, the concatenated graph-layer encodings of the two towers and the
  broadcast graph summaries.
\<close>

record upstream =
  enc :: vec
  encs_id :: vec
  graph_sum_id :: vec
  encs_reg :: vec
  graph_sum_reg :: vec

text \<open>
  \<^verbatim>\<open>PFNetDense.call\<close> from \<^verbatim>\<open>dec_output_id = ...\<close> on, at one element whose first feature is
  \<open>x0\<close>:
  \<^verbatim>\<open>
  msk = X[:, :, 0] != 0
  msk_input = tf.expand_dims(tf.cast(msk, tf.float32), -1)
  ...
  dec_output_id = tf.concat(dec_input_cls, axis=-1)*msk_input
  out_id_logits = self.ffn_id(dec_output_id)*msk_input
  if self.focal_loss_from_logits:
      out_id_softmax = out_id_logits
  else:
      out_id_softmax = tf.clip_by_value(tf.nn.softmax(out_id_logits), 0, 1)
  out_charge = self.ffn_charge(dec_output_id)*msk_input
  ...
  dec_output_reg = tf.concat(dec_input_reg, axis=-1)*msk_input
  if self.separate_momentum:
      pred_momentum = [ffn(dec_output_reg) for ffn in self.ffn_momentum]
      pred_momentum = tf.concat(pred_momentum, axis=-1)*msk_input
  else:
      pred_momentum = self.ffn_momentum(dec_output_reg)*msk_input
  pred_momentum = self.momentum_mult*pred_momentum
  out_charge = tf.clip_by_value(out_charge, -2, 2)
  ret = {
      "cls": out_id_softmax,
      "charge": out_charge,
      "pt": tf.exp(tf.clip_by_value(pred_momentum[:, :, 0:1], -6, 8)),
      "eta": pred_momentum[:, :, 1:2],
      "sin_phi": pred_momentum[:, :, 2:3],
      "cos_phi": pred_momentum[:, :, 3:4],
      "energy": tf.exp(tf.clip_by_value(pred_momentum[:, :, 4:5], -6, 8)),
  }
  \<close>
\<close>

text \<open>
  Each local variable of the source is a definition of its own, taking the value
  \<open>msk_input\<close> of the mask at the element.
\<close>

definition msk_input_of :: "real \<Rightarrow> real" where
  "msk_input_of x0 = (if x0 \<noteq> 0 then 1 else 0)"

definition PFNetDense_dec_output_id :: "PFNetDense \<Rightarrow> real \<Rightarrow> upstream \<Rightarrow> vec" where
  "PFNetDense_dec_output_id M msk_input up =
     map (\<lambda>v. v * msk_input)
       ((if skip_connection M then enc up else []) @ encs_id up @ graph_sum_id up)"

definition PFNetDense_out_id_logits :: "PFNetDense \<Rightarrow> real \<Rightarrow> upstream \<Rightarrow> vec" where
  "PFNetDense_out_id_logits M msk_input up =
     map (\<lambda>v. v * msk_input) (ffn_id M (PFNetDense_dec_output_id M msk_input up))"

definition PFNetDense_out_id_softmax :: "PFNetDense \<Rightarrow> real \<Rightarrow> upstream \<Rightarrow> vec" where
  "PFNetDense_out_id_softmax M msk_input up =
     (if focal_loss_from_logits M then PFNetDense_out_id_logits M msk_input up
      else map (\<lambda>p. clip_by_value p 0 1) (softmax (PFNetDense_out_id_logits M msk_input up)))"

definition PFNetDense_out_charge :: "PFNetDense \<Rightarrow> real \<Rightarrow> upstream \<Rightarrow> vec" where
  "PFNetDense_out_charge M msk_input up =
     map (\<lambda>c. clip_by_value c (-2) 2)
       (map (\<lambda>v. v * msk_input) (ffn_charge M (PFNetDense_dec_output_id M msk_input up)))"

definition PFNetDense_dec_output_reg :: "PFNetDense \<Rightarrow> real \<Rightarrow> upstream \<Rightarrow> vec" where
  "PFNetDense_dec_output_reg M msk_input up =
     map (\<lambda>v. v * msk_input)
       ((if skip_connection M then enc up else []) @
        (if regression_use_classification M then PFNetDense_out_id_logits M msk_input up
         else []) @
        encs_reg up @ graph_sum_reg up)"

definition PFNetDense_pred_momentum :: "PFNetDense \<Rightarrow> real \<Rightarrow> upstream \<Rightarrow> error + vec" where
  "PFNetDense_pred_momentum M msk_input up =
     broadcast_mul (momentum_mult M)
       (case ffn_momentum M of
          Separate ffns \<Rightarrow>
            map (\<lambda>v. v * msk_input)
              (concat (map (\<lambda>ffn. ffn (PFNetDense_dec_output_reg M msk_input up)) ffns))
        | Joint ffn \<Rightarrow>
            map (\<lambda>v. v * msk_input) (ffn (PFNetDense_dec_output_reg M msk_input up)))"

definition PFNetDense_ret :: "PFNetDense \<Rightarrow> real \<Rightarrow> upstream \<Rightarrow> error + outputs" where
  "PFNetDense_ret M x0 up =
     (case PFNetDense_pred_momentum M (msk_input_of x0) up of
        Inl e \<Rightarrow> Inl e
      | Inr pred_momentum \<Rightarrow>
          Inr \<lparr>cls = PFNetDense_out_id_softmax M (msk_input_of x0) up,
               charge = PFNetDense_out_charge M (msk_input_of x0) up,
               pt = map (\<lambda>v. exp (clip_by_value v (-6) 8)) (slice 0 1 pred_momentum),
               eta = slice 1 2 pred_momentum,
               sin_phi = slice 2 3 pred_momentum,
               cos_phi = slice 3 4 pred_momentum,
               energy = map (\<lambda>v. exp (clip_by_value v (-6) 8)) (slice 4 5 pred_momentum)\<rparr>)"

text \<open>
  \<^verbatim>\<open>
  if self.multi_output:
      return ret
  else:
      return tf.concat([ret["cls"], ret["charge"], ret["pt"], ret["eta"], ret["sin_phi"],
                        ret["cos_phi"], ret["energy"]], axis=-1)
  \<close>
\<close>

definition PFNetDense_call_element :: "PFNetDense \<Rightarrow> real \<Rightarrow> upstream \<Rightarrow> error + model_output" where
  "PFNetDense_call_element M x0 up =
     (case PFNetDense_ret M x0 up of
        Inl e \<Rightarrow> Inl e
      | Inr ret \<Rightarrow>
          Inr (if multi_output M then Named ret
               else Concatenated (cls ret @ charge ret @ pt ret @ eta ret @ sin_phi ret @
                                  cos_phi ret @ energy ret)))"

text \<open>
  The whole forward pass. The layers upstream of the heads (input encoding, the dense
  projections and the combined graph layers with their graph builder, convolutions and
  inverse scatter) are the parameter \<open>upstream_layers\<close>: run on the batch they raise or
  deliver, for every position \<open>(b, i)\<close>, the tensors the heads read. The heads are then
  mapped over the positions. Reading \<open>X[:, :, 0]\<close> needs a first feature.
\<close>

definition PFNetDense_call ::
  "PFNetDense \<Rightarrow> (mat list \<Rightarrow> error + (nat \<Rightarrow> nat \<Rightarrow> upstream)) \<Rightarrow> mat list
     \<Rightarrow> error + model_output list list" where
  "PFNetDense_call M upstream_layers X =
     (if \<exists>ev \<in> set X. \<exists>row \<in> set ev. row = [] then Inl InvalidArgument
      else case upstream_layers X of
        Inl e \<Rightarrow> Inl e
      | Inr up \<Rightarrow>
          sequence_err
            (map (\<lambda>b. sequence_err
                         (map (\<lambda>i. PFNetDense_call_element M (X ! b ! i ! 0) (up b i))
                              [0..<length (X ! b)]))
                 [0..<length X]))"

text \<open>
  The sparse model \<open>PFNet\<close>. Upstream of its heads are the input encoding and the two
  graph networks, whose outputs at one element are \<open>x_id\<close> and \<open>x_reg\<close>.
  \<^verbatim>\<open>
  msk_input = tf.expand_dims(tf.cast(X[:, :, 0] != 0, tf.dtypes.float32), -1)
  ...
  if self.skip_connection:
      to_decode = tf.concat([enc, x_id], axis=-1)
  else:
      to_decode = tf.concat([x_id], axis=-1)
  out_id_logits = self.layer_id(to_decode)*msk_input
  out_charge = self.layer_charge(to_decode)*msk_input
  ...
  if self.skip_connection:
      to_decode = tf.concat([enc, tf.cast(out_id_logits, X.dtype), x_reg], axis=-1)
  else:
      to_decode = tf.concat([tf.cast(out_id_logits, X.dtype), x_reg], axis=-1)
  pred_momentum = self.layer_momentum(to_decode)*msk_input
  out_id_softmax = tf.clip_by_value(tf.nn.softmax(out_id_logits), 0, 1)
  out_charge = tf.clip_by_value(out_charge, -2, 2)
  if self.multi_output:
      ret = {
          "cls": out_id_softmax,
          "charge": out_charge,
          "pt": tf.exp(tf.clip_by_value(pred_momentum[:, :, 0:1], -4, 4)),
          "eta": pred_momentum[:, :, 1:2],
          "sin_phi": pred_momentum[:, :, 2:3],
          "cos_phi": pred_momentum[:, :, 3:4],
          "energy": tf.exp(tf.clip_by_value(pred_momentum[:, :, 4:5], -5, 6))
      }
      return ret
  else:
      return tf.concat([out_id_softmax, out_charge, pred_momentum], axis=-1)
  \<close>
\<close>

record PFNet =
  pf_multi_output :: bool
  pf_skip_connection :: bool
  layer_id :: "vec \<Rightarrow> vec"
  layer_charge :: "vec \<Rightarrow> vec"
  layer_momentum :: "vec \<Rightarrow> vec"

record pf_upstream =
  pf_enc :: vec
  x_id :: vec
  x_reg :: vec

definition PFNet_out_id_logits :: "PFNet \<Rightarrow> real \<Rightarrow> pf_upstream \<Rightarrow> vec" where
  "PFNet_out_id_logits M msk_input up =
     map (\<lambda>v. v * msk_input)
       (layer_id M (if pf_skip_connection M then pf_enc up @ x_id up else x_id up))"

definition PFNet_out_charge :: "PFNet \<Rightarrow> real \<Rightarrow> pf_upstream \<Rightarrow> vec" where
  "PFNet_out_charge M msk_input up =
     map (\<lambda>c. clip_by_value c (-2) 2)
       (map (\<lambda>v. v * msk_input)
          (layer_charge M (if pf_skip_connection M then pf_enc up @ x_id up else x_id up)))"

definition PFNet_pred_momentum :: "PFNet \<Rightarrow> real \<Rightarrow> pf_upstream \<Rightarrow> vec" where
  "PFNet_pred_momentum M msk_input up =
     map (\<lambda>v. v * msk_input)
       (layer_momentum M
          (if pf_skip_connection M
           then pf_enc up @ PFNet_out_id_logits M msk_input up @ x_reg up
           else PFNet_out_id_logits M msk_input up @ x_reg up))"

definition PFNet_out_id_softmax :: "PFNet \<Rightarrow> real \<Rightarrow> pf_upstream \<Rightarrow> vec" where
  "PFNet_out_id_softmax M msk_input up =
     map (\<lambda>p. clip_by_value p 0 1) (softmax (PFNet_out_id_logits M msk_input up))"

definition PFNet_call_element :: "PFNet \<Rightarrow> real \<Rightarrow> pf_upstream \<Rightarrow> model_output" where
  "PFNet_call_element M x0 up =
     (if pf_multi_output M then
        Named \<lparr>cls = PFNet_out_id_softmax M (msk_input_of x0) up,
               charge = PFNet_out_charge M (msk_input_of x0) up,
               pt = map (\<lambda>v. exp (clip_by_value v (-4) 4))
                      (slice 0 1 (PFNet_pred_momentum M (msk_input_of x0) up)),
               eta = slice 1 2 (PFNet_pred_momentum M (msk_input_of x0) up),
               sin_phi = slice 2 3 (PFNet_pred_momentum M (msk_input_of x0) up),
               cos_phi = slice 3 4 (PFNet_pred_momentum M (msk_input_of x0) up),
               energy = map (\<lambda>v. exp (clip_by_value v (-5) 6))
                          (slice 4 5 (PFNet_pred_momentum M (msk_input_of x0) up))\<rparr>
      else Concatenated (PFNet_out_id_softmax M (msk_input_of x0) up @
                         PFNet_out_charge M (msk_input_of x0) up @
                         PFNet_pred_momentum M (msk_input_of x0) up))"

text \<open>
  The whole forward pass of \<open>PFNet\<close>, with the input encoding, the sparse graph builder
  and the two graph networks as the parameter \<open>upstream_layers\<close>, which raises or delivers
  the tensors the heads read.
\<close>

definition PFNet_call ::
  "PFNet \<Rightarrow> (mat list \<Rightarrow> error + (nat \<Rightarrow> nat \<Rightarrow> pf_upstream)) \<Rightarrow> mat list
     \<Rightarrow> error + model_output list list" where
  "PFNet_call M upstream_layers X =
     (if \<exists>ev \<in> set X. \<exists>row \<in> set ev. row = [] then Inl InvalidArgument
      else case upstream_layers X of
        Inl e \<Rightarrow> Inl e
      | Inr up \<Rightarrow>
          Inr (map (\<lambda>b. map (\<lambda>i. PFNet_call_element M (X ! b ! i ! 0) (up b i))
                              [0..<length (X ! b)])
                   [0..<length X]))"

section \<open>Graph convolution layers\<close>

text \<open>
  The convolution layers work on the binned tensors; the batch and bin axes are mapped
  over, so the embedding is of one bin: \<open>x\<close> is the (n, hidden) feature matrix, \<open>adj\<close>
  the adjacency of the bin and \<open>msk\<close> the mask column, kept as the vector of its \<open>n\<close>
  entries. Operands of an elementwise operation must have the same number of nodes
  (broadcasting of size-one axes is not modelled).
\<close>

definition err_bind :: "error + 'a \<Rightarrow> ('a \<Rightarrow> error + 'b) \<Rightarrow> error + 'b" where
  "err_bind r f = (case r of Inl e \<Rightarrow> Inl e | Inr v \<Rightarrow> f v)"

definition scale_rows :: "mat \<Rightarrow> vec \<Rightarrow> mat" where
  "scale_rows m s = map2 (\<lambda>row c. map (\<lambda>v. v * c) row) m s"






definition gated_mix :: "mat \<Rightarrow> mat \<Rightarrow> mat \<Rightarrow> mat" where
  "gated_mix gate f_hom f_het =
     map2 (\<lambda>g (h, t). map2 (\<lambda>gv (hv, tv). gv * hv + (1 - gv) * tv) g (zip h t))
          gate (zip f_hom f_het)"


text \<open>
  \<^verbatim>\<open>
  class MPNNNodeFunction(tf.keras.layers.Layer):
      def call(self, inputs):
          x, adj, msk = inputs
          avg_message = tf.reduce_mean(adj, axis=-2)
          x2 = tf.concat([x, avg_message], axis=-1)*msk
          return self.ffn(x2)
  \<close>
  For the concatenation with \<open>x\<close> to have matching rank, \<open>adj\<close> carries a feature axis:
  in one bin it has shape (n, n, k), as the learnable kernel of the graph builder
  produces it, and \<open>reduce_mean\<close> over axis -2 averages, for node \<open>i\<close>, the \<open>n\<close>
  vectors \<open>adj[i, j, :]\<close>. \<open>ffn\<close> is the layer's feed-forward stack, acting on one node's
  vector.
\<close>

definition mean_rows :: "mat \<Rightarrow> vec" where
  "mean_rows rows =
     map (\<lambda>c. sum_list (map (\<lambda>r. r ! c) rows) / real (length rows))
         [0..<(case rows of [] \<Rightarrow> 0 | r # _ \<Rightarrow> length r)]"

definition MPNN_avg_message :: "mat list \<Rightarrow> mat" where
  "MPNN_avg_message adj = map mean_rows adj"

definition MPNNNodeFunction_call ::
  "(vec \<Rightarrow> vec) \<Rightarrow> mat \<Rightarrow> mat list \<Rightarrow> vec \<Rightarrow> error + mat" where
  "MPNNNodeFunction_call ffn x adj msk =
     (if length adj \<noteq> length x \<or> length msk \<noteq> length x then Inl InvalidArgument
      else Inr (map ffn (scale_rows (map2 (@) x (MPNN_avg_message adj)) msk)))"

text \<open>
  The message average in the words of the specification: for node \<open>i\<close>, the average over
  the neighbours \<open>j\<close> of the neighbour's feature vector weighted by the adjacency entry.
\<close>

definition spec_weighted_avg_message :: "mat \<Rightarrow> mat list \<Rightarrow> mat" where
  "spec_weighted_avg_message x adj =
     map (\<lambda>adj_i. mean_rows (map2 (\<lambda>a_ij x_j. map2 (*) a_ij x_j) adj_i x)) adj"

section \<open>Construction from configuration\<close>

text \<open>
  Configuration dictionaries are association lists from keys to values. \<open>pop_key\<close> is
  Python's \<^verbatim>\<open>d.pop(key)\<close>, which raises \<open>KeyError\<close> for a missing key, and
  \<open>pop_default\<close> is \<^verbatim>\<open>d.pop(key, default)\<close>. The constructor of the base class
  \<^verbatim>\<open>tf.keras.layers.Layer\<close> receives the remaining keyword arguments and rejects the
  ones it does not know.
\<close>

datatype config_value = Str string | Num real | Flag bool

type_synonym config = "(string \<times> config_value) list"

definition pop_key :: "string \<Rightarrow> config \<Rightarrow> error + (config_value \<times> config)" where
  "pop_key k d =
     (case map_of d k of
        None \<Rightarrow> Inl KeyError
      | Some v \<Rightarrow> Inr (v, filter (\<lambda>(k', v'). k' \<noteq> k) d))"

definition pop_default :: "string \<Rightarrow> config_value \<Rightarrow> config \<Rightarrow> config_value \<times> config" where
  "pop_default k dflt d =
     (case map_of d k of
        None \<Rightarrow> (dflt, d)
      | Some v \<Rightarrow> (v, filter (\<lambda>(k', v'). k' \<noteq> k) d))"

definition Layer_init :: "config \<Rightarrow> error + unit" where
  "Layer_init kwargs =
     (if \<forall>(k, v) \<in> set kwargs.
           k \<in> set [''input_dim'', ''input_shape'', ''batch_input_shape'', ''batch_size'',
                     ''weights'', ''activity_regularizer'', ''autocast'', ''implementation'',
                     ''name'', ''trainable'', ''dtype'', ''dynamic'']
      then Inr () else Inl TypeError)"

text \<open>
  \<^verbatim>\<open>
  class MPNNNodeFunction(tf.keras.layers.Layer):
      def __init__(self, *args, **kwargs):
          self.output_dim = kwargs.pop("output_dim")
          self.hidden_dim = kwargs.pop("hidden_dim")
          self.num_layers = kwargs.pop("num_layers")
          self.activation = kwargs.pop("activation")
          self.ffn = point_wise_feed_forward_network(...)
          super(MPNNNodeFunction, self).__init__(*args, **kwargs)

  class GHConvDense(tf.keras.layers.Layer):
      def __init__(self, *args, **kwargs):
          self.activation = kwargs.pop("activation")
          self.output_dim = kwargs.pop("output_dim")
          self.normalize_degrees = kwargs.pop("normalize_degrees", True)
          super(GHConvDense, self).__init__(*args, **kwargs)

  def get_conv_layer(config_dict):
      config_dict = config_dict.copy()
      class_name = config_dict.pop("type")
      classes = {
          "MPNNNodeFunction": MPNNNodeFunction,
          "GHConvDense": GHConvDense
      }
      conv_cls = classes[class_name]
      return conv_cls(**config_dict)
  \<close>
\<close>

datatype conv_layer =
    MPNNNodeFunction_layer config_value config_value config_value config_value
  | GHConvDense_layer config_value config_value config_value

definition MPNNNodeFunction_init :: "config \<Rightarrow> error + conv_layer" where
  "MPNNNodeFunction_init kwargs =
     err_bind (pop_key ''output_dim'' kwargs) (\<lambda>(output_dim, kwargs).
     err_bind (pop_key ''hidden_dim'' kwargs) (\<lambda>(hidden_dim, kwargs).
     err_bind (pop_key ''num_layers'' kwargs) (\<lambda>(num_layers, kwargs).
     err_bind (pop_key ''activation'' kwargs) (\<lambda>(act, kwargs).
     err_bind (Layer_init kwargs) (\<lambda>u.
       Inr (MPNNNodeFunction_layer output_dim hidden_dim num_layers act))))))"

definition GHConvDense_init :: "config \<Rightarrow> error + conv_layer" where
  "GHConvDense_init kwargs =
     err_bind (pop_key ''activation'' kwargs) (\<lambda>(act, kwargs).
     err_bind (pop_key ''output_dim'' kwargs) (\<lambda>(output_dim, kwargs).
       case pop_default ''normalize_degrees'' (Flag True) kwargs of
         (normalize_deg, kwargs) \<Rightarrow>
           err_bind (Layer_init kwargs) (\<lambda>u.
             Inr (GHConvDense_layer act output_dim normalize_deg))))"

definition get_conv_layer :: "config \<Rightarrow> error + conv_layer" where
  "get_conv_layer config_dict =
     err_bind (pop_key ''type'' config_dict) (\<lambda>(class_name, config_dict).
       if class_name = Str ''MPNNNodeFunction'' then MPNNNodeFunction_init config_dict
       else if class_name = Str ''GHConvDense'' then GHConvDense_init config_dict
       else Inl KeyError)"

text \<open>
  \<^verbatim>\<open>
  class GraphBuilderDense(tf.keras.layers.Layer):
      def __init__(self, clip_value_low=0.0, distance_dim=128, max_num_bins=200,
                   bin_size=128, dist_mult=0.1, **kwargs):
          self.dist_mult = dist_mult
          self.distance_dim = distance_dim
          self.max_num_bins = max_num_bins
          self.bin_size = bin_size
          self.clip_value_low = clip_value_low
          self.kernel = kwargs.pop("kernel")
          if self.kernel == "learnable":
              self.ffn_dist = point_wise_feed_forward_network(32, 32, num_layers=2,
                                                              activation="elu")
          elif self.kernel == "gaussian":
              pass
          super(GraphBuilderDense, self).__init__(**kwargs)
  \<close>
\<close>

record GraphBuilderDense =
  gb_dist_mult :: real
  gb_distance_dim :: nat
  gb_max_num_bins :: nat
  gb_bin_size :: nat
  gb_clip_value_low :: real
  gb_kernel :: config_value
  gb_has_ffn_dist :: bool

definition GraphBuilderDense_init ::
  "real \<Rightarrow> nat \<Rightarrow> nat \<Rightarrow> nat \<Rightarrow> real \<Rightarrow> config \<Rightarrow> error + GraphBuilderDense" where
  "GraphBuilderDense_init clip_value_low distance_dim max_num_bins bin_size dist_mult kwargs =
     err_bind (pop_key ''kernel'' kwargs) (\<lambda>(kernel, kwargs).
     err_bind (Layer_init kwargs) (\<lambda>u.
       Inr \<lparr>gb_dist_mult = dist_mult, gb_distance_dim = distance_dim,
            gb_max_num_bins = max_num_bins, gb_bin_size = bin_size,
            gb_clip_value_low = clip_value_low, gb_kernel = kernel,
            gb_has_ffn_dist = (kernel = Str ''learnable'')\<rparr>))"

text \<open>
  \<^verbatim>\<open>
      def call(self, x_dist, x_features, msk):
          msk_f = tf.expand_dims(tf.cast(msk, x_dist.dtype), -1)
          n_batches = tf.shape(x_dist)[0]
          n_points = tf.shape(x_dist)[1]
          n_features = tf.shape(x_dist)[2]
          n_bins = tf.math.floordiv(n_points, self.bin_size)
          mul = tf.linalg.matmul(x_dist, self.codebook_random_rotations[:, :n_bins//2])
          cmul = tf.concat([mul, -mul], axis=-1)
          bins_split = split_indices_to_bins_batch(cmul, n_bins, self.bin_size, msk)
          x_dist_binned = tf.gather(x_dist, bins_split, batch_dims=1)
          x_features_binned = tf.gather(x_features, bins_split, batch_dims=1)
          msk_f_binned = tf.gather(msk_f, bins_split, batch_dims=1)
          if self.kernel == "learnable":
              dm = pairwise_learnable_dist(x_dist_binned, x_dist_binned, self.ffn_dist)
              dm = tf.keras.activations.elu(dm)
          elif self.kernel == "gaussian":
              dm = pairwise_gaussian_dist(x_dist_binned, x_dist_binned)
              dm = tf.exp(-self.dist_mult*dm)
              dm = tf.clip_by_value(dm, self.clip_value_low, 1)
          dm = tf.einsum("abijk,abi->abijk", dm, tf.squeeze(msk_f_binned, axis=-1))
          dm = tf.einsum("abijk,abj->abijk", dm, tf.squeeze(msk_f_binned, axis=-1))
          return bins_split, x_features_binned, dm, msk_f_binned
  \<close>
  The learnable kernel runs the feed-forward net \<open>ffn_dist\<close> on every pair of element
  vectors of a bin, which gives the rank-5 tensor the two mask products expect. The
  Gaussian kernel gives a rank-4 matrix, which the first product, written for rank 5,
  rejects. With any other kernel \<open>dm\<close> is read before it was assigned.
\<close>

definition elu :: "real \<Rightarrow> real" where
  "elu v = (if 0 < v then v else exp v - 1)"

definition learnable_dm :: "(vec \<Rightarrow> vec) \<Rightarrow> mat \<Rightarrow> vec \<Rightarrow> mat list" where
  "learnable_dm ffn_dist points msk_f =
     map2 (\<lambda>a_i m_i. map2 (\<lambda>a_j m_j. map (\<lambda>v. elu v * m_i * m_j) (ffn_dist (a_i @ a_j)))
                            points msk_f)
          points msk_f"

definition GraphBuilderDense_call ::
  "GraphBuilderDense \<Rightarrow> mat \<Rightarrow> (vec \<Rightarrow> vec) \<Rightarrow> mat list \<Rightarrow> mat list \<Rightarrow> bool list list
     \<Rightarrow> error + (nat list list list \<times> mat list list \<times> mat list list list \<times> vec list list)" where
  "GraphBuilderDense_call gb codebook_random_rotations ffn_dist x_dist x_features msk =
     (if gb_bin_size gb = 0 then Inl InvalidArgument
      else
        let n_points = (case x_dist of [] \<Rightarrow> 0 | ev # _ \<Rightarrow> length ev);
            n_bins = n_points div gb_bin_size gb
        in
        err_bind (sequence_err (map (lsh_cmul codebook_random_rotations n_bins) x_dist))
          (\<lambda>cmul.
        err_bind (split_indices_to_bins_batch cmul n_bins (gb_bin_size gb) msk)
          (\<lambda>bins_split.
        err_bind (gather_batch x_dist bins_split) (\<lambda>x_dist_binned.
        err_bind (gather_batch x_features bins_split) (\<lambda>x_features_binned.
        err_bind (gather_batch (map (map (\<lambda>m. if m then 1 else 0)) msk) bins_split)
          (\<lambda>msk_f_binned.
        err_bind
          (if gb_kernel gb = Str ''learnable''
           then Inr (map2 (map2 (learnable_dm ffn_dist)) x_dist_binned msk_f_binned)
           else if gb_kernel gb = Str ''gaussian'' then Inl InvalidArgument
           else Inl UnboundLocalError)
          (\<lambda>dm. Inr (bins_split, x_features_binned, dm, msk_f_binned))))))))"

section \<open>Sparse neighbour selection\<close>

text \<open>
  \<^verbatim>\<open>
  def pairwise_gaussian_dist(A, B):
      na = tf.reduce_sum(tf.square(A), -1)
      nb = tf.reduce_sum(tf.square(B), -1)
      na = tf.expand_dims(na, -1)
      nb = tf.expand_dims(nb, -2)
      D = tf.sqrt(tf.maximum(na - 2*tf.matmul(A, B, False, True) + nb, 1e-6))
      return D
  \<close>
  for the points of one bin (both arguments are the same tensor in the graph builders, so
  the feature widths agree).
\<close>

definition pairwise_gaussian_dist :: "mat \<Rightarrow> mat \<Rightarrow> mat" where
  "pairwise_gaussian_dist A B =
     map (\<lambda>a. map (\<lambda>b. sqrt (max (dot a a - 2 * dot a b + dot b b) (1 / 1000000))) B) A"

text \<open>
  \<^verbatim>\<open>tf.nn.top_k(row, k)\<close> on one row: the \<open>k\<close> largest entries in descending order,
  each with its position, the lower position first among equal entries; a row shorter
  than \<open>k\<close> is rejected.
\<close>

definition top_k :: "nat \<Rightarrow> vec \<Rightarrow> error + (real \<times> nat) list" where
  "top_k k row =
     (if length row < k then Inl InvalidArgument
      else Inr (take k (sort_key (\<lambda>(v, j). - v) (zip row [0..<length row]))))"

text \<open>
  \<^verbatim>\<open>
  def subpoints_to_sparse_matrix(self, subindices, subpoints):
      dm = pairwise_gaussian_dist(subpoints, subpoints)
      dm = tf.exp(-self.dist_mult*dm)
      dmshape = tf.shape(dm)
      nbins = dmshape[0]
      nelems = dmshape[1]
      top_k = tf.nn.top_k(dm, k=self.num_neighbors)
      top_k_vals = tf.reshape(top_k.values, (nbins*nelems, self.num_neighbors))
      indices_gathered = tf.map_fn(
          lambda i: tf.gather_nd(subindices, top_k.indices[:, :, i:i+1], batch_dims=1),
          tf.range(self.num_neighbors, dtype=tf.int32), ...)
      indices_gathered = tf.transpose(indices_gathered, [1,2,0])
      def func(i):
         dst_ind = indices_gathered[:, :, i]
         dst_ind = tf.reshape(dst_ind, (nbins*nelems, ))
         src_ind = tf.reshape(tf.stack(subindices), (nbins*nelems, ))
         src_dst_inds = tf.cast(tf.transpose(tf.stack([src_ind, dst_ind])), dtype=tf.int64)
         return src_dst_inds, top_k_vals[:, i]
      ret = tf.map_fn(func, tf.range(0, self.num_neighbors, delta=1, dtype=tf.int32), ...)
      shp = tf.shape(ret[0])
      inds = tf.reshape(ret[0], (shp[0]*shp[1], 2))
      vals = tf.reshape(ret[1], (shp[0]*shp[1],))
      return inds, vals
  \<close>
  \<open>similarity\<close> is the matrix \<open>dm\<close> of one bin. \<open>bin_edges\<close> pairs every element of a
  bin (its global index, from \<open>subindices\<close>) with its \<open>k\<close> selected neighbours: value and
  global index of the neighbour. The result lists the edges rank by rank: first the
  rank-0 neighbour of every element, then the rank-1 neighbours, and so on.
\<close>

definition similarity :: "real \<Rightarrow> mat \<Rightarrow> mat" where
  "similarity dist_mult points =
     map (map (\<lambda>d. exp (- dist_mult * d))) (pairwise_gaussian_dist points points)"

definition bin_edges ::
  "nat list \<Rightarrow> (real \<times> nat) list list \<Rightarrow> error + (nat \<times> (real \<times> nat) list) list" where
  "bin_edges subidx tks =
     (if length subidx \<noteq> length tks then Inl InvalidArgument
      else if \<exists>tk \<in> set tks. \<exists>(v, j) \<in> set tk. length subidx \<le> j then Inl InvalidArgument
      else Inr (map2 (\<lambda>src tk. (src, map (\<lambda>(v, j). (v, subidx ! j)) tk)) subidx tks))"

definition knn_rows ::
  "nat \<Rightarrow> real \<Rightarrow> nat list list \<Rightarrow> mat list \<Rightarrow> error + (nat \<times> (real \<times> nat) list) list" where
  "knn_rows num_neighbors dist_mult subindices subpoints =
     (if length subindices \<noteq> length subpoints then Inl InvalidArgument
      else
        err_bind (sequence_err
                    (map (\<lambda>points. sequence_err
                                      (map (top_k num_neighbors) (similarity dist_mult points)))
                         subpoints)) (\<lambda>top.
        err_bind (sequence_err (map2 bin_edges subindices top)) (\<lambda>edges.
          Inr (concat edges))))"

definition subpoints_to_sparse_matrix ::
  "nat \<Rightarrow> real \<Rightarrow> nat list list \<Rightarrow> mat list \<Rightarrow> error + ((nat \<times> nat) list \<times> real list)" where
  "subpoints_to_sparse_matrix num_neighbors dist_mult subindices subpoints =
     err_bind (knn_rows num_neighbors dist_mult subindices subpoints) (\<lambda>rows.
       Inr (concat (map (\<lambda>i. map (\<lambda>(src, tk). (src, snd (tk ! i))) rows)
                        [0..<num_neighbors]),
            concat (map (\<lambda>i. map (\<lambda>(src, tk). fst (tk ! i)) rows) [0..<num_neighbors])))"

section \<open>Helper lemmas\<close>

lemma sequence_err_Inr:
  "(\<And>r. r \<in> set rs \<Longrightarrow> \<exists>x. r = Inr x) \<Longrightarrow>
   \<exists>xs. sequence_err rs = Inr xs \<and> length xs = length rs \<and>
        (\<forall>i < length rs. rs ! i = Inr (xs ! i))"
proof (induction rs)
  case Nil
  then show ?case by simp
next
  case (Cons r rs)
  from Cons.prems obtain x where r: "r = Inr x" by auto
  from Cons obtain xs where xs: "sequence_err rs = Inr xs" "length xs = length rs"
    "\<forall>i < length rs. rs ! i = Inr (xs ! i)" by auto
  show ?case
  proof (intro exI conjI)
    show "sequence_err (r # rs) = Inr (x # xs)" using r xs by simp
    show "length (x # xs) = length (r # rs)" using xs by simp
    show "\<forall>i < length (r # rs). (r # rs) ! i = Inr ((x # xs) ! i)"
      using r xs by (auto simp: nth_Cons split: nat.splits)
  qed
qed

lemma sequence_err_InrD:
  "sequence_err rs = Inr xs \<Longrightarrow>
   length xs = length rs \<and> (\<forall>i < length rs. rs ! i = Inr (xs ! i))"
proof (induction rs arbitrary: xs)
  case Nil
  then show ?case by simp
next
  case (Cons r rs)
  from Cons.prems obtain x ys where r: "r = Inr x" and ys: "sequence_err rs = Inr ys"
    and xs: "xs = x # ys"
    by (auto split: sum.splits)
  from Cons.IH [OF ys] have ih: "length ys = length rs" "\<forall>i < length rs. rs ! i = Inr (ys ! i)"
    by auto
  show ?case using r xs ih by (auto simp: nth_Cons split: nat.splits)
qed

lemma concat_chunks: "length xs = n * sz \<Longrightarrow> concat (chunks n sz xs) = xs"
proof (induction n arbitrary: xs)
  case 0
  then show ?case by simp
next
  case (Suc n)
  then have "length (drop sz xs) = n * sz" by simp
  with Suc.IH have "concat (chunks n sz (drop sz xs)) = drop sz xs" by blast
  then show ?case by simp
qed

lemma length_chunks [simp]: "length (chunks n sz xs) = n"
  by (induction n arbitrary: xs) simp_all

lemma chunks_sizes:
  "length xs = n * sz \<Longrightarrow> b \<in> set (chunks n sz xs) \<Longrightarrow> length b = sz"
proof (induction n arbitrary: xs)
  case 0
  then show ?case by simp
next
  case (Suc n)
  then have len: "length (drop sz xs) = n * sz" by simp
  from Suc.prems(2) consider "b = take sz xs" | "b \<in> set (chunks n sz (drop sz xs))"
    by auto
  then show ?case
  proof cases
    case 1
    then show ?thesis using Suc.prems(1) by simp
  next
    case 2
    then show ?thesis using Suc.IH [OF len] by blast
  qed
qed

lemma mset_argsort: "mset (argsort keys) = mset [0..<length keys]"
  by (simp add: argsort_def)

lemma length_argsort [simp]: "length (argsort keys) = length keys"
  by (simp add: argsort_def)

lemma argmax_nonempty: "v \<noteq> [] \<Longrightarrow> \<exists>a. argmax v = Inr a"
  by (cases v) (simp_all add: argmax_def)

lemma reshape2_argsort:
  assumes "length keys = nbins * bin_size"
  shows "\<exists>bins. reshape2 nbins bin_size (argsort keys) = Inr bins \<and> length bins = nbins \<and>
           (\<forall>b \<in> set bins. length b = bin_size) \<and>
           mset (concat bins) = mset [0..<length keys]"
proof (intro exI conjI)
  show "reshape2 nbins bin_size (argsort keys) = Inr (chunks nbins bin_size (argsort keys))"
    using assms by (simp add: reshape2_def)
  show "length (chunks nbins bin_size (argsort keys)) = nbins" by simp
  show "\<forall>b \<in> set (chunks nbins bin_size (argsort keys)). length b = bin_size"
    using assms chunks_sizes [of "argsort keys" nbins bin_size] by simp
  show "mset (concat (chunks nbins bin_size (argsort keys))) = mset [0..<length keys]"
    using assms by (simp add: concat_chunks mset_argsort)
qed

lemma split_indices_to_bins_total:
  assumes len: "length cmul = nbins * bin_size" and ne: "\<forall>row \<in> set cmul. row \<noteq> []"
  shows "\<exists>bins. split_indices_to_bins cmul nbins bin_size = Inr bins \<and> length bins = nbins \<and>
           (\<forall>b \<in> set bins. length b = bin_size) \<and>
           mset (concat bins) = mset [0..<length cmul]"
proof -
  have "\<And>r. r \<in> set (map argmax cmul) \<Longrightarrow> \<exists>x. r = Inr x"
    using ne argmax_nonempty by auto
  from sequence_err_Inr [of "map argmax cmul", OF this] obtain bin_idx where
    bi: "sequence_err (map argmax cmul) = Inr bin_idx" "length bin_idx = length cmul"
    by auto
  have "length (map int bin_idx) = nbins * bin_size" using bi len by simp
  from reshape2_argsort [OF this] show ?thesis
    using bi by (simp add: split_indices_to_bins_def)
qed

lemma bin_idx_masked_nonempty: "v \<noteq> [] \<Longrightarrow> \<exists>k. bin_idx_masked nbins v m = Inr k"
  by (cases v) (simp_all add: bin_idx_masked_def argmax_def)

lemma split_indices_to_bins_event_total:
  assumes len: "length cmul = nbins * bin_size" and lm: "length msk = length cmul"
    and ne: "\<forall>row \<in> set cmul. row \<noteq> []"
  shows "\<exists>bins. split_indices_to_bins_event cmul nbins bin_size msk = Inr bins \<and>
           length bins = nbins \<and> (\<forall>b \<in> set bins. length b = bin_size) \<and>
           mset (concat bins) = mset [0..<length cmul]"
proof -
  have "\<And>r. r \<in> set (map2 (bin_idx_masked nbins) cmul msk) \<Longrightarrow> \<exists>x. r = Inr x"
  proof -
    fix r assume "r \<in> set (map2 (bin_idx_masked nbins) cmul msk)"
    then obtain v m where "(v, m) \<in> set (zip cmul msk)" "r = bin_idx_masked nbins v m"
      by auto
    moreover then have "v \<noteq> []" using ne by (auto dest: set_zip_leftD)
    ultimately show "\<exists>x. r = Inr x" using bin_idx_masked_nonempty by blast
  qed
  from sequence_err_Inr [of "map2 (bin_idx_masked nbins) cmul msk", OF this]
  obtain bin_idx where
    bi: "sequence_err (map2 (bin_idx_masked nbins) cmul msk) = Inr bin_idx"
    "length bin_idx = length cmul"
    using lm by auto
  have "length bin_idx = nbins * bin_size" using bi len by simp
  from reshape2_argsort [OF this] show ?thesis
    using bi lm by (simp add: split_indices_to_bins_event_def)
qed

lemma split_indices_to_bins_batch_total:
  assumes lm: "length msk = length cmul"
    and ev: "\<forall>b < length cmul. length (cmul ! b) = nbins * bin_size \<and>
               length (msk ! b) = length (cmul ! b) \<and> (\<forall>row \<in> set (cmul ! b). row \<noteq> [])"
  shows "\<exists>bins. split_indices_to_bins_batch cmul nbins bin_size msk = Inr bins \<and>
           length bins = length cmul \<and>
           (\<forall>b < length cmul. length (bins ! b) = nbins \<and>
              (\<forall>bin \<in> set (bins ! b). length bin = bin_size) \<and>
              mset (concat (bins ! b)) = mset [0..<nbins * bin_size])"
proof -
  let ?f = "\<lambda>c m. split_indices_to_bins_event c nbins bin_size m"
  let ?rs = "map2 ?f cmul msk"
  have good: "\<And>b. b < length cmul \<Longrightarrow>
      \<exists>bins. ?rs ! b = Inr bins \<and> length bins = nbins \<and>
        (\<forall>bin \<in> set bins. length bin = bin_size) \<and>
        mset (concat bins) = mset [0..<nbins * bin_size]"
  proof -
    fix b assume b: "b < length cmul"
    with ev have "length (cmul ! b) = nbins * bin_size"
      "length (msk ! b) = length (cmul ! b)" "\<forall>row \<in> set (cmul ! b). row \<noteq> []" by auto
    from split_indices_to_bins_event_total [OF this]
    show "\<exists>bins. ?rs ! b = Inr bins \<and> length bins = nbins \<and>
        (\<forall>bin \<in> set bins. length bin = bin_size) \<and>
        mset (concat bins) = mset [0..<nbins * bin_size]"
      using b lm \<open>length (cmul ! b) = nbins * bin_size\<close> by simp
  qed
  have "\<And>r. r \<in> set ?rs \<Longrightarrow> \<exists>x. r = Inr x"
  proof -
    fix r assume "r \<in> set ?rs"
    then obtain b where "b < length ?rs" "r = ?rs ! b" by (metis in_set_conv_nth)
    then show "\<exists>x. r = Inr x" using good [of b] lm by auto
  qed
  from sequence_err_Inr [of ?rs, OF this] obtain bins where
    bins: "sequence_err ?rs = Inr bins" "length bins = length ?rs"
    "\<forall>i < length ?rs. ?rs ! i = Inr (bins ! i)" by blast
  show ?thesis
  proof (intro exI conjI allI impI)
    show "split_indices_to_bins_batch cmul nbins bin_size msk = Inr bins"
      using bins lm by (simp add: split_indices_to_bins_batch_def)
    show "length bins = length cmul" using bins lm by simp
  next
    fix b assume b: "b < length cmul"
    then have "?rs ! b = Inr (bins ! b)" using bins lm by simp
    with good [OF b] have g: "length (bins ! b) = nbins \<and>
        (\<forall>bin \<in> set (bins ! b). length bin = bin_size) \<and>
        mset (concat (bins ! b)) = mset [0..<nbins * bin_size]" by auto
    from g show "length (bins ! b) = nbins" by blast
    from g show "\<forall>bin \<in> set (bins ! b). length bin = bin_size" by blast
    from g show "mset (concat (bins ! b)) = mset [0..<nbins * bin_size]" by blast
  qed
qed

section \<open>Bin assignment is a permutation\<close>

text \<open>
  Claim C3, as the code has it. When the element count \<open>n_points\<close> is a multiple of
  \<open>bin_size\<close>, the number of bins is \<open>n_points div bin_size\<close> (as both graph builders
  compute it) and the score matrix has at least one column, then
  \<open>split_indices_to_bins\<close> returns bins, and so does \<open>split_indices_to_bins_batch\<close>
  for every event of the batch; the bins have \<open>bin_size\<close> entries each and their
  concatenation holds every index \<open>0..n_points-1\<close> exactly once.
\<close>

theorem split_indices_to_bins_permutation:
  assumes "0 < bin_size" and "bin_size dvd n_points"
  shows "(length cmul = n_points \<and> (\<forall>row \<in> set cmul. row \<noteq> []) \<longrightarrow>
            (\<exists>bins. split_indices_to_bins cmul (n_points div bin_size) bin_size = Inr bins \<and>
               length bins = n_points div bin_size \<and>
               (\<forall>b \<in> set bins. length b = bin_size) \<and>
               mset (concat bins) = mset [0..<n_points]))
       \<and> (length msk = length cmuls \<and>
            (\<forall>b < length cmuls. length (cmuls ! b) = n_points \<and>
               length (msk ! b) = n_points \<and> (\<forall>row \<in> set (cmuls ! b). row \<noteq> [])) \<longrightarrow>
            (\<exists>bins. split_indices_to_bins_batch cmuls (n_points div bin_size) bin_size msk
                       = Inr bins \<and>
               length bins = length cmuls \<and>
               (\<forall>b < length cmuls. length (bins ! b) = n_points div bin_size \<and>
                  (\<forall>bin \<in> set (bins ! b). length bin = bin_size) \<and>
                  mset (concat (bins ! b)) = mset [0..<n_points])))"
proof -
  from assms have n: "n_points div bin_size * bin_size = n_points" by simp
  show ?thesis
  proof (intro conjI impI)
    assume h: "length cmul = n_points \<and> (\<forall>row \<in> set cmul. row \<noteq> [])"
    then have "length cmul = n_points div bin_size * bin_size" using n by simp
    from split_indices_to_bins_total [OF this] h
    show "\<exists>bins. split_indices_to_bins cmul (n_points div bin_size) bin_size = Inr bins \<and>
               length bins = n_points div bin_size \<and>
               (\<forall>b \<in> set bins. length b = bin_size) \<and>
               mset (concat bins) = mset [0..<n_points]" by auto
  next
    assume h: "length msk = length cmuls \<and>
            (\<forall>b < length cmuls. length (cmuls ! b) = n_points \<and>
               length (msk ! b) = n_points \<and> (\<forall>row \<in> set (cmuls ! b). row \<noteq> []))"
    then have 1: "length msk = length cmuls" by blast
    have 2: "\<forall>b < length cmuls.
        length (cmuls ! b) = n_points div bin_size * bin_size \<and>
        length (msk ! b) = length (cmuls ! b) \<and> (\<forall>row \<in> set (cmuls ! b). row \<noteq> [])"
      using h n by simp
    from split_indices_to_bins_batch_total [OF 1 2]
    show "\<exists>bins. split_indices_to_bins_batch cmuls (n_points div bin_size) bin_size msk
                       = Inr bins \<and>
               length bins = length cmuls \<and>
               (\<forall>b < length cmuls. length (bins ! b) = n_points div bin_size \<and>
                  (\<forall>bin \<in> set (bins ! b). length bin = bin_size) \<and>
                  mset (concat (bins ! b)) = mset [0..<n_points])"
      using n by simp
  qed
qed

theorem split_indices_to_bins_permutation_witness:
  "(0::nat) < 2 \<and> (2::nat) dvd 4 \<and>
   (\<exists>bins. split_indices_to_bins [[1,-1],[-1,1],[1,-1],[-1,1]] (4 div 2) 2 = Inr bins \<and>
      length bins = 4 div 2 \<and> (\<forall>b \<in> set bins. length b = 2) \<and>
      mset (concat bins) = mset [0..<4]) \<and>
   (\<exists>bins. split_indices_to_bins_batch [[[1,-1],[-1,1],[1,-1],[-1,1]]] (4 div 2) 2
              [[True,False,True,False]] = Inr bins \<and>
      length bins = 1 \<and>
      (\<forall>b < 1. length (bins ! b) = 4 div 2 \<and>
                  (\<forall>bin \<in> set (bins ! b). length bin = 2) \<and>
                  mset (concat (bins ! b)) = mset [0..<4]))"
  using split_indices_to_bins_permutation [of 2 4 "[[1,-1],[-1,1],[1,-1],[-1,1]]"
      "[[True,False,True,False]]" "[[[1,-1],[-1,1],[1,-1],[-1,1]]]"]
  by simp

text \<open>
  Claim C3 as stated, for every element count divisible by \<open>bin_size\<close>, fails when there
  is one bin (\<open>n_points = bin_size\<close>): the builders take \<open>n_bins div 2 = 0\<close> columns of the
  codebook, the score matrix has no column and \<open>argmax\<close> is rejected, in the sparse and
  in the dense variant.
\<close>

theorem split_indices_to_bins_one_bin_counterexample:
  "(2::nat) dvd 2 \<and>
   lsh_cmul [[1]] (2 div 2) [[1], [1]] = Inr [[], []] \<and>
   split_indices_to_bins [[], []] (2 div 2) 2 = Inl InvalidArgument \<and>
   split_indices_to_bins_batch [[[], []]] (2 div 2) 2 [[True, True]] = Inl InvalidArgument"
  by (simp add: lsh_cmul_def matmul_def vecmat_def split_indices_to_bins_def
      split_indices_to_bins_batch_def split_indices_to_bins_event_def bin_idx_masked_def
      argmax_def)

section \<open>Inverse scatter after forward gather\<close>

lemma add_zeros_left: "map2 (+) (replicate (length u) (0::real)) u = u"
  by (induction u) simp_all

lemma scatter_add_distinct:
  assumes "distinct (map fst ps)"
    and "\<forall>(i, u) \<in> set ps. i < length acc \<and> acc ! i = replicate F 0 \<and> length u = F"
  shows "\<exists>res. scatter_add ps acc = Inr res \<and> length res = length acc \<and>
           (\<forall>j < length acc. res ! j = (case map_of ps j of Some u \<Rightarrow> u | None \<Rightarrow> acc ! j))"
  using assms
proof (induction ps arbitrary: acc)
  case Nil
  then show ?case by simp
next
  case (Cons p ps)
  obtain i u where p: "p = (i, u)" by (cases p)
  from Cons.prems p have i: "i < length acc" "acc ! i = replicate F 0" "length u = F"
    by auto
  let ?acc = "acc[i := map2 (+) (acc ! i) u]"
  have upd: "?acc = acc[i := u]" using i add_zeros_left [of u] by simp
  from Cons.prems p have notin: "i \<notin> fst ` set ps" and dist: "distinct (map fst ps)"
    by auto
  have pre: "\<forall>(i', u') \<in> set ps. i' < length ?acc \<and> ?acc ! i' = replicate F 0 \<and> length u' = F"
  proof safe
    fix i' u' assume m: "(i', u') \<in> set ps"
    with Cons.prems(2) have a: "i' < length acc" "acc ! i' = replicate F 0" "length u' = F"
      by auto
    from m notin have "i' \<noteq> i" by force
    show "i' < length ?acc" using a by simp
    show "?acc ! i' = replicate F 0" using a \<open>i' \<noteq> i\<close> by simp
    show "length u' = F" using a by simp
  qed
  from Cons.IH [OF dist pre] obtain res where res: "scatter_add ps ?acc = Inr res"
    "length res = length ?acc"
    "\<forall>j < length ?acc. res ! j = (case map_of ps j of Some u \<Rightarrow> u | None \<Rightarrow> ?acc ! j)"
    by blast
  have none: "map_of ps i = None" using notin by (simp add: map_of_eq_None_iff)
  show ?case
  proof (intro exI conjI allI impI)
    show "scatter_add (p # ps) acc = Inr res" using p i res by simp
    show "length res = length acc" using res by simp
  next
    fix j assume j: "j < length acc"
    show "res ! j = (case map_of (p # ps) j of Some u \<Rightarrow> u | None \<Rightarrow> acc ! j)"
    proof (cases "j = i")
      case True
      then show ?thesis using res(3) j none p upd by simp
    next
      case False
      then show ?thesis using res(3) j p by (simp split: option.splits)
    qed
  qed
qed

lemma reverse_lsh_event_gather:
  assumes perm: "mset (concat bins) = mset [0..<length X]"
    and rows: "\<forall>row \<in> set X. length row = F" and Fpos: "0 < F"
  shows "\<exists>G. gather X bins = Inr G \<and> reverse_lsh_event bins G = Inr X"
proof -
  define idx where "idx = concat bins"
  define G where "G = map (map (\<lambda>i. X ! i)) bins"
  define upd where "upd = map (\<lambda>i. X ! i) idx"
  from perm have seteq: "set idx = {0..<length X}"
    unfolding idx_def by (metis mset_eq_setD set_upt)
  from perm have dist: "distinct idx"
    unfolding idx_def by (metis distinct_upt mset_eq_imp_distinct_iff)
  from perm have len: "length idx = length X"
    unfolding idx_def by (metis mset_eq_length length_upt diff_zero)
  have inb: "\<And>i. i \<in> set idx \<Longrightarrow> i < length X" using seteq by auto
  have "\<forall>bin \<in> set bins. \<forall>i \<in> set bin. i < length X"
    using inb unfolding idx_def by auto
  then have g: "gather X bins = Inr G" by (simp add: gather_def G_def)
  have flat: "concat G = upd" by (simp add: map_concat G_def upd_def idx_def)
  have lenu: "length upd = length X" using len by (simp add: upd_def)
  have F: "(case upd of [] \<Rightarrow> 0 | r # _ \<Rightarrow> length r) = (if X = [] then 0 else F)"
  proof (cases idx)
    case Nil
    then have "X = []" using len by (metis length_0_conv list.size(3))
    then show ?thesis using Nil by (simp add: upd_def)
  next
    case (Cons i rest)
    then have "i \<in> set idx" by simp
    then have "i < length X" by (rule inb)
    then have "length (X ! i) = F" using rows by simp
    moreover have "X \<noteq> []" using \<open>i < length X\<close> by auto
    ultimately show ?thesis using Cons by (simp add: upd_def)
  qed
  define acc where "acc = replicate (length X) (replicate F (0::real))"
  have d: "distinct (map fst (zip idx upd))" using dist by (simp add: upd_def)
  have pre: "\<forall>(i, u) \<in> set (zip idx upd).
      i < length acc \<and> acc ! i = replicate F 0 \<and> length u = F"
  proof safe
    fix i u assume m: "(i, u) \<in> set (zip idx upd)"
    then have "i \<in> set idx" by (rule set_zip_leftD)
    then have i: "i < length X" by (rule inb)
    from m have "u \<in> set upd" by (rule set_zip_rightD)
    then have "u \<in> set X" using inb by (auto simp: upd_def)
    show "i < length acc" using i by (simp add: acc_def)
    show "acc ! i = replicate F 0" using i by (simp add: acc_def)
    show "length u = F" using \<open>u \<in> set X\<close> rows by simp
  qed
  from scatter_add_distinct [OF d pre] obtain res where
    res: "scatter_add (zip idx upd) acc = Inr res" "length res = length acc"
    "\<forall>j < length acc. res ! j =
       (case map_of (zip idx upd) j of Some u \<Rightarrow> u | None \<Rightarrow> acc ! j)"
    by blast
  have lacc: "length acc = length X" by (simp add: acc_def)
  have "res = X"
  proof (rule nth_equalityI)
    show "length res = length X" using res lacc by simp
  next
    fix j assume "j < length res"
    then have j: "j < length X" using res lacc by simp
    then have "j \<in> set idx" using seteq by simp
    then have "map_of (zip idx upd) j = Some (X ! j)"
      by (simp add: map_of_zip_map upd_def)
    then show "res ! j = X ! j" using res(3) j lacc by simp
  qed
  have "reverse_lsh_event bins G = Inr X"
  proof (cases "X = []")
    case True
    then have "idx = []" "upd = []" using len lenu by simp_all
    then show ?thesis
      using True flat
      by (simp add: reverse_lsh_event_def scatter_nd_def idx_def [symmetric]
          del: concat_eq_Nil_conv)
  next
    case False
    have "scatter_nd idx upd (length X) F = Inr X"
      using res(1) \<open>res = X\<close> len lenu Fpos False
      by (simp add: scatter_nd_def acc_def)
    then show ?thesis
      using F False len lenu flat
      by (simp add: reverse_lsh_event_def Let_def idx_def [symmetric]
          del: concat_eq_Nil_conv)
  qed
  with g show ?thesis by blast
qed

text \<open>
  Claim C2, as the code has it. For a feature tensor \<open>X\<close> with at least one feature
  (every row of every event of width \<open>F \<ge> 1\<close>) and a bin assignment that holds, per
  event, every element index exactly once, the forward gather succeeds and \<open>reverse_lsh\<close>
  of the bins and the gathered tensor returns \<open>X\<close>.
\<close>

theorem reverse_lsh_gather_identity:
  assumes "length bins_split = length X"
    and "\<forall>b < length X. mset (concat (bins_split ! b)) = mset [0..<length (X ! b)] \<and>
           (\<forall>row \<in> set (X ! b). length row = F)"
    and "0 < F"
  shows "\<exists>G. gather_batch X bins_split = Inr G \<and> reverse_lsh bins_split G = Inr X"
proof -
  let ?gs = "map2 gather X bins_split"
  have ev: "\<And>b. b < length X \<Longrightarrow> \<exists>G. gather (X ! b) (bins_split ! b) = Inr G \<and>
      reverse_lsh_event (bins_split ! b) G = Inr (X ! b)"
    using assms(2,3) reverse_lsh_event_gather by blast
  have "\<And>r. r \<in> set ?gs \<Longrightarrow> \<exists>x. r = Inr x"
  proof -
    fix r assume "r \<in> set ?gs"
    then obtain b where "b < length ?gs" "r = ?gs ! b" by (metis in_set_conv_nth)
    then show "\<exists>x. r = Inr x" using ev [of b] assms(1) by auto
  qed
  from sequence_err_Inr [of ?gs, OF this] obtain G where
    G: "sequence_err ?gs = Inr G" "length G = length ?gs"
    "\<forall>i < length ?gs. ?gs ! i = Inr (G ! i)" by blast
  have lenG: "length G = length X" using G assms(1) by simp
  let ?rs = "map2 reverse_lsh_event bins_split G"
  have rs: "\<And>b. b < length X \<Longrightarrow> ?rs ! b = Inr (X ! b)"
  proof -
    fix b assume b: "b < length X"
    then have "gather (X ! b) (bins_split ! b) = Inr (G ! b)"
      using G(3) assms(1) by simp
    with ev [OF b] have "reverse_lsh_event (bins_split ! b) (G ! b) = Inr (X ! b)" by auto
    then show "?rs ! b = Inr (X ! b)" using b assms(1) lenG by simp
  qed
  have "\<And>r. r \<in> set ?rs \<Longrightarrow> \<exists>x. r = Inr x"
  proof -
    fix r assume "r \<in> set ?rs"
    then obtain b where "b < length ?rs" "r = ?rs ! b" by (metis in_set_conv_nth)
    then show "\<exists>x. r = Inr x" using rs [of b] assms(1) lenG by auto
  qed
  from sequence_err_Inr [of ?rs, OF this] obtain Y where
    Y: "sequence_err ?rs = Inr Y" "length Y = length ?rs"
    "\<forall>i < length ?rs. ?rs ! i = Inr (Y ! i)" by blast
  have "Y = X"
  proof (rule nth_equalityI)
    show "length Y = length X" using Y assms(1) lenG by simp
  next
    fix b assume "b < length Y"
    then have b: "b < length X" using Y assms(1) lenG by simp
    then have "?rs ! b = Inr (Y ! b)" using Y(3) assms(1) lenG by simp
    with rs [OF b] show "Y ! b = X ! b" by simp
  qed
  have "gather_batch X bins_split = Inr G"
    using G assms(1) by (simp add: gather_batch_def)
  moreover have "reverse_lsh bins_split G = Inr X"
    using Y \<open>Y = X\<close> assms(1) lenG by (simp add: reverse_lsh_def)
  ultimately show ?thesis by blast
qed

theorem reverse_lsh_gather_identity_witness:
  "\<exists>G. gather_batch [[[1, 2], [3, 4], [5, 6], [7, 8]]] [[[2, 0], [3, 1]]] = Inr G \<and>
     reverse_lsh [[[2, 0], [3, 1]]] G = Inr [[[1, 2], [3, 4], [5, 6], [7, 8]]]"
  using reverse_lsh_gather_identity
    [of "[[[2, 0], [3, 1]]]" "[[[1, 2], [3, 4], [5, 6], [7, 8]]]" 2]
  by (simp add: eval_nat_numeral)

text \<open>
  Claim C2 as stated, for every feature tensor, fails on a tensor without features: the
  gather succeeds and the scatter of \<open>reverse_lsh\<close> rejects indices given for an empty
  output.
\<close>

theorem reverse_lsh_gather_no_features_counterexample:
  "gather_batch [[[], []]] [[[1, 0]]] = Inr [[[[], []]]] \<and>
   reverse_lsh [[[1, 0]]] [[[[], []]]] = Inl InvalidArgument"
  by (simp add: gather_batch_def gather_def reverse_lsh_def reverse_lsh_event_def
      scatter_nd_def)

section \<open>Bin indices of masked and valid elements\<close>

lemma argmax_from_bound:
  "besti < i \<Longrightarrow> argmax_from best besti i xs < i + length xs"
proof (induction xs arbitrary: best besti i)
  case Nil
  then show ?case by simp
next
  case (Cons x xs)
  have "argmax_from x i (Suc i) xs < Suc i + length xs"
    using Cons.IH [of i "Suc i" x] by simp
  moreover have "argmax_from best besti (Suc i) xs < Suc i + length xs"
    using Cons.IH [of besti "Suc i" best] Cons.prems by simp
  ultimately show ?case by simp
qed

lemma argmax_less_length: "argmax v = Inr a \<Longrightarrow> a < length v"
proof (cases v)
  case Nil
  assume "argmax v = Inr a"
  with Nil show ?thesis by (simp add: argmax_def)
next
  case (Cons x xs)
  assume "argmax v = Inr a"
  with Cons have "a = argmax_from x 0 1 xs" by (simp add: argmax_def)
  with argmax_from_bound [of 0 1 x xs] Cons show ?thesis by simp
qed

lemma length_transpose_take: "length (transpose (map (take k) B)) \<le> k"
proof -
  have "foldr (\<lambda>xs. max (length xs)) (map (take k) B) 0 \<le> k"
    by (induction B) auto
  then show ?thesis by (simp add: length_transpose)
qed

lemma lsh_cmul_width:
  assumes "lsh_cmul codebook n_bins x_dist = Inr cmul" and "row \<in> set cmul"
  shows "length row \<le> n_bins"
proof -
  let ?B = "map (take (n_bins div 2)) codebook"
  from assms(1) obtain mul where mul: "matmul x_dist ?B = Inr mul"
    and cm: "cmul = map (\<lambda>r. r @ map uminus r) mul"
    by (auto simp: lsh_cmul_def split: sum.splits)
  from mul have "\<forall>r \<in> set mul. length r = length (transpose ?B)"
    by (auto simp: matmul_def vecmat_def split: if_splits)
  with assms(2) cm have "length row = 2 * length (transpose ?B)" by auto
  with length_transpose_take [of "n_bins div 2" codebook] show ?thesis by simp
qed

lemma length_lsh_cmul:
  assumes "lsh_cmul codebook n_bins x_dist = Inr cmul"
  shows "length cmul = length x_dist"
  using assms by (auto simp: lsh_cmul_def matmul_def split: sum.splits if_splits)

lemma bin_idx_masked_bounds:
  assumes "lsh_cmul codebook n_bins x_dist = Inr cmul" and "i < length cmul"
    and "bin_idx_masked n_bins (cmul ! i) m = Inr k"
  shows "(m \<longrightarrow> k \<le> int n_bins - 1) \<and> (\<not> m \<longrightarrow> int n_bins - 1 \<le> k)"
proof -
  from assms(3) obtain a where a: "argmax (cmul ! i) = Inr a"
    "k = int a + (if \<not> m then int n_bins - 1 else 0)"
    by (auto simp: bin_idx_masked_def split: sum.splits)
  from assms(1,2) have w: "length (cmul ! i) \<le> n_bins"
    using lsh_cmul_width nth_mem by blast
  from a(1) have "a < length (cmul ! i)" by (rule argmax_less_length)
  with w a(2) show ?thesis by auto
qed

lemma split_indices_to_bins_event_sorted:
  assumes "split_indices_to_bins_event cmul nbins bin_size msk = Inr bins_split"
  shows "\<exists>bin_idx. length bin_idx = length cmul \<and> length msk = length cmul \<and>
           (\<forall>i < length cmul. bin_idx_masked nbins (cmul ! i) (msk ! i) = Inr (bin_idx ! i)) \<and>
           concat bins_split = argsort bin_idx \<and>
           sorted (map (\<lambda>i. bin_idx ! i) (concat bins_split)) \<and>
           set (concat bins_split) = {0..<length cmul}"
proof -
  from assms have lm: "length msk = length cmul"
    by (auto simp: split_indices_to_bins_event_def split: if_splits)
  with assms obtain bin_idx where
    bi: "sequence_err (map2 (bin_idx_masked nbins) cmul msk) = Inr bin_idx"
    and rs: "reshape2 nbins bin_size (argsort bin_idx) = Inr bins_split"
    by (auto simp: split_indices_to_bins_event_def split: sum.splits)
  from sequence_err_InrD [OF bi] lm have len: "length bin_idx = length cmul"
    and nth: "\<forall>i < length cmul. bin_idx_masked nbins (cmul ! i) (msk ! i) = Inr (bin_idx ! i)"
    by auto
  from rs have "length (argsort bin_idx) = nbins * bin_size"
    and "bins_split = chunks nbins bin_size (argsort bin_idx)"
    by (auto simp: reshape2_def split: if_splits)
  then have flat: "concat bins_split = argsort bin_idx" by (simp add: concat_chunks)
  have srt: "sorted (map (\<lambda>i. bin_idx ! i) (argsort bin_idx))"
    by (simp add: argsort_def)
  have st: "set (argsort bin_idx) = {0..<length cmul}"
    using len by (simp add: argsort_def)
  from len lm nth flat srt st show ?thesis by auto
qed

text \<open>
  Claim C4, as the code has it. \<open>n_bins\<close> is the number of bins the graph builder
  computes for an event, \<open>cmul\<close> its hash scores and \<open>bins_split\<close> its bin assignment.
  Every valid element has a bin index of at most \<open>n_bins - 1\<close> and every masked element
  one of at least \<open>n_bins - 1\<close>. In the sorted order that is cut into the bins, a masked
  element stands before a valid element only when both have the bin index \<open>n_bins - 1\<close>;
  otherwise the masked elements come last. (The bins are groups of \<open>bin_size\<close>
  consecutive positions of that order, so masked and valid elements can share a bin.)
\<close>

theorem masked_elements_sorted_behind_valid:
  assumes "lsh_cmul codebook (length x_dist div bin_size) x_dist = Inr cmul"
    and "split_indices_to_bins_event cmul (length x_dist div bin_size) bin_size msk
           = Inr bins_split"
  shows "(\<forall>i < length x_dist. \<exists>k.
            bin_idx_masked (length x_dist div bin_size) (cmul ! i) (msk ! i) = Inr k \<and>
            (msk ! i \<longrightarrow> k \<le> int (length x_dist div bin_size) - 1) \<and>
            (\<not> msk ! i \<longrightarrow> int (length x_dist div bin_size) - 1 \<le> k))
       \<and> (\<forall>p q. p < q \<and> q < length (concat bins_split) \<and>
                 \<not> msk ! (concat bins_split ! p) \<and> msk ! (concat bins_split ! q) \<longrightarrow>
            bin_idx_masked (length x_dist div bin_size) (cmul ! (concat bins_split ! p)) False
              = Inr (int (length x_dist div bin_size) - 1) \<and>
            bin_idx_masked (length x_dist div bin_size) (cmul ! (concat bins_split ! q)) True
              = Inr (int (length x_dist div bin_size) - 1))"
proof -
  define n_bins where "n_bins = length x_dist div bin_size"
  define flat where "flat = concat bins_split"
  have lc: "length cmul = length x_dist" using assms(1) by (rule length_lsh_cmul)
  from split_indices_to_bins_event_sorted [OF assms(2)] obtain bin_idx where
    len: "length bin_idx = length cmul"
    and nth: "\<forall>i < length cmul. bin_idx_masked n_bins (cmul ! i) (msk ! i) = Inr (bin_idx ! i)"
    and srt: "sorted (map (\<lambda>i. bin_idx ! i) flat)"
    and st: "set flat = {0..<length cmul}"
    unfolding n_bins_def flat_def by blast
  have bnd: "\<And>i. i < length cmul \<Longrightarrow>
      (msk ! i \<longrightarrow> bin_idx ! i \<le> int n_bins - 1) \<and>
      (\<not> msk ! i \<longrightarrow> int n_bins - 1 \<le> bin_idx ! i)"
  proof -
    fix i assume i: "i < length cmul"
    with nth have "bin_idx_masked n_bins (cmul ! i) (msk ! i) = Inr (bin_idx ! i)" by blast
    from bin_idx_masked_bounds [OF assms(1) [folded n_bins_def] i this]
    show "(msk ! i \<longrightarrow> bin_idx ! i \<le> int n_bins - 1) \<and>
      (\<not> msk ! i \<longrightarrow> int n_bins - 1 \<le> bin_idx ! i)" .
  qed
  have 1: "\<forall>i < length x_dist. \<exists>k.
            bin_idx_masked n_bins (cmul ! i) (msk ! i) = Inr k \<and>
            (msk ! i \<longrightarrow> k \<le> int n_bins - 1) \<and> (\<not> msk ! i \<longrightarrow> int n_bins - 1 \<le> k)"
  proof (intro allI impI)
    fix i assume "i < length x_dist"
    then have i: "i < length cmul" using lc by simp
    from nth i have "bin_idx_masked n_bins (cmul ! i) (msk ! i) = Inr (bin_idx ! i)" by blast
    with bnd [OF i] show "\<exists>k. bin_idx_masked n_bins (cmul ! i) (msk ! i) = Inr k \<and>
            (msk ! i \<longrightarrow> k \<le> int n_bins - 1) \<and> (\<not> msk ! i \<longrightarrow> int n_bins - 1 \<le> k)"
      by blast
  qed
  have 2: "\<forall>p q. p < q \<and> q < length flat \<and> \<not> msk ! (flat ! p) \<and> msk ! (flat ! q) \<longrightarrow>
            bin_idx_masked n_bins (cmul ! (flat ! p)) False = Inr (int n_bins - 1) \<and>
            bin_idx_masked n_bins (cmul ! (flat ! q)) True = Inr (int n_bins - 1)"
  proof (intro allI impI)
    fix p q
    assume h: "p < q \<and> q < length flat \<and> \<not> msk ! (flat ! p) \<and> msk ! (flat ! q)"
    then have pq: "p < q" "q < length flat" "p < length flat" by auto
    have ip: "flat ! p < length cmul" using st pq(3) nth_mem [of p flat] by auto
    have iq: "flat ! q < length cmul" using st pq(2) nth_mem [of q flat] by auto
    from srt pq have "map (\<lambda>i. bin_idx ! i) flat ! p \<le> map (\<lambda>i. bin_idx ! i) flat ! q"
      by (intro sorted_nth_mono) simp_all
    then have le: "bin_idx ! (flat ! p) \<le> bin_idx ! (flat ! q)" using pq by simp
    from bnd [OF ip] h have lo: "int n_bins - 1 \<le> bin_idx ! (flat ! p)" by blast
    from bnd [OF iq] h have hi: "bin_idx ! (flat ! q) \<le> int n_bins - 1" by blast
    from le lo hi have e: "bin_idx ! (flat ! p) = int n_bins - 1"
      "bin_idx ! (flat ! q) = int n_bins - 1" by linarith+
    from nth ip have "bin_idx_masked n_bins (cmul ! (flat ! p)) (msk ! (flat ! p))
        = Inr (bin_idx ! (flat ! p))" by blast
    with h e(1) have a: "bin_idx_masked n_bins (cmul ! (flat ! p)) False = Inr (int n_bins - 1)"
      by simp
    from nth iq have "bin_idx_masked n_bins (cmul ! (flat ! q)) (msk ! (flat ! q))
        = Inr (bin_idx ! (flat ! q))" by blast
    with h e(2) have b: "bin_idx_masked n_bins (cmul ! (flat ! q)) True = Inr (int n_bins - 1)"
      by simp
    from a b show "bin_idx_masked n_bins (cmul ! (flat ! p)) False = Inr (int n_bins - 1) \<and>
            bin_idx_masked n_bins (cmul ! (flat ! q)) True = Inr (int n_bins - 1)" ..
  qed
  from 1 2 show ?thesis unfolding n_bins_def flat_def by (rule conjI)
qed

theorem masked_elements_sorted_behind_valid_witness:
  "lsh_cmul [[1]] (length [[1], [1], [1], [-1::real]] div 2) [[1], [1], [1], [-1]]
     = Inr [[1, -1], [1, -1], [1, -1], [-1, 1]] \<and>
   split_indices_to_bins_event [[1, -1], [1, -1], [1, -1], [-1, 1]]
     (length [[1], [1], [1], [-1::real]] div 2) 2 [True, True, False, True]
     = Inr [[0, 1], [2, 3]] \<and>
   (2::nat) < 3 \<and> 3 < length (concat [[0, 1], [2, 3::nat]]) \<and>
   \<not> [True, True, False, True] ! (concat [[0, 1], [2, 3]] ! 2) \<and>
   [True, True, False, True] ! (concat [[0, 1], [2, 3]] ! 3) \<and>
   bin_idx_masked 2 ([[1, -1], [1, -1], [1, -1], [-1, 1]] ! 2) False = Inr 1 \<and>
   bin_idx_masked 2 ([[1, -1], [1, -1], [1, -1], [-1, 1]] ! 3) True = Inr 1"
proof -
  have c: "lsh_cmul [[1]] (length [[1], [1], [1], [-1::real]] div 2) [[1], [1], [1], [-1]]
     = Inr [[1, -1], [1, -1], [1, -1], [-1, 1]]"
    by (simp add: lsh_cmul_def matmul_def vecmat_def dot_def)
  have n: "length [[1], [1], [1], [-1::real]] div 2 = (2::nat)" by simp
  have s: "split_indices_to_bins_event [[1, -1], [1, -1], [1, -1], [-1, 1]]
     (length [[1], [1], [1], [-1::real]] div 2) 2 [True, True, False, True]
     = Inr [[0, 1], [2, 3]]"
    unfolding n
    by (simp add: split_indices_to_bins_event_def bin_idx_masked_def argmax_def reshape2_def
        argsort_def eval_nat_numeral upt_rec)
  from masked_elements_sorted_behind_valid [OF c s]
  have "\<forall>p q. p < q \<and> q < length (concat [[0, 1], [2, 3::nat]]) \<and>
                 \<not> [True, True, False, True] ! (concat [[0, 1], [2, 3]] ! p) \<and>
                 [True, True, False, True] ! (concat [[0, 1], [2, 3]] ! q) \<longrightarrow>
            bin_idx_masked (length [[1], [1], [1], [-1::real]] div 2)
              ([[1, -1], [1, -1], [1, -1], [-1, 1]] ! (concat [[0, 1], [2, 3]] ! p)) False
              = Inr (int (length [[1], [1], [1], [-1::real]] div 2) - 1) \<and>
            bin_idx_masked (length [[1], [1], [1], [-1::real]] div 2)
              ([[1, -1], [1, -1], [1, -1], [-1, 1]] ! (concat [[0, 1], [2, 3]] ! q)) True
              = Inr (int (length [[1], [1], [1], [-1::real]] div 2) - 1)"
    by (rule conjunct2)
  from this [rule_format, of 2 3, unfolded n]
  have r: "bin_idx_masked 2 ([[1, -1], [1, -1], [1, -1], [-1, 1]] ! 2) False = Inr 1 \<and>
           bin_idx_masked 2 ([[1, -1], [1, -1], [1, -1], [-1, 1]] ! 3) True = Inr 1"
    by simp
  have m: "(2::nat) < 3 \<and> 3 < length (concat [[0, 1], [2, 3::nat]]) \<and>
     \<not> [True, True, False, True] ! (concat [[0, 1], [2, 3]] ! 2) \<and>
     [True, True, False, True] ! (concat [[0, 1], [2, 3]] ! 3)"
    by simp
  from c s m r show ?thesis by blast
qed

text \<open>
  Claim C4 as stated fails: with two bins, a valid element whose best score is in the last
  column and a masked element whose best score is in the first column both get bin index
  1, and after sorting they share the second bin.
\<close>

theorem masked_bin_idx_disjoint_counterexample:
  "lsh_cmul [[1]] 2 [[1], [1], [-1], [1]] = Inr [[1, -1], [1, -1], [-1, 1], [1, -1]] \<and>
   bin_idx_masked 2 ([[1, -1], [1, -1], [-1, 1], [1, -1]] ! 2) True = Inr 1 \<and>
   bin_idx_masked 2 ([[1, -1], [1, -1], [-1, 1], [1, -1]] ! 3) False = Inr 1 \<and>
   split_indices_to_bins_event [[1, -1], [1, -1], [-1, 1], [1, -1]] 2 2
     [True, True, True, False] = Inr [[0, 1], [2, 3]]"
  by (simp add: lsh_cmul_def matmul_def vecmat_def dot_def bin_idx_masked_def argmax_def
      split_indices_to_bins_event_def reshape2_def argsort_def eval_nat_numeral upt_rec)

section \<open>Input encoding is total on the type field\<close>

lemma one_hot_out_of_range:
  "idx < 0 \<or> int depth \<le> idx \<Longrightarrow> one_hot idx depth = replicate depth 0"
proof -
  assume a: "idx < 0 \<or> int depth \<le> idx"
  have "map (\<lambda>k. if int k = idx then 1 else (0::real)) [0..<depth] = map (\<lambda>k. 0) [0..<depth]"
    using a by (intro map_cong) auto
  then show ?thesis by (simp add: one_hot_def map_replicate_const)
qed

lemma length_one_hot [simp]: "length (one_hot idx depth) = depth"
  by (simp add: one_hot_def)

lemma cast_int32_out_of_range:
  "x \<le> -1 \<or> real depth \<le> x \<Longrightarrow> cast_int32 x < 0 \<or> int depth \<le> cast_int32 x"
proof (cases "0 \<le> x")
  case True
  assume "x \<le> -1 \<or> real depth \<le> x"
  with True have "real depth \<le> x" by simp
  then have "int depth \<le> \<lfloor>x\<rfloor>" by (simp add: le_floor_iff)
  with True show ?thesis by (simp add: cast_int32_def)
next
  case False
  assume "x \<le> -1 \<or> real depth \<le> x"
  with False have "x \<le> -1" by auto
  with False show ?thesis by (simp add: cast_int32_def)
qed

text \<open>
  Claim C10. On an input whose rows all have the same width \<open>F \<ge> 1\<close>,
  \<open>InputEncoding.call\<close> raises nothing, whatever the value of the type field; every
  output row has width \<open>num_input_classes + (F - 1)\<close>; and where the type index is
  negative (at most \<open>-1\<close>) or at least \<open>num_input_classes\<close>, the one-hot block (the
  first \<open>num_input_classes\<close> entries) is all zeros.
\<close>

theorem InputEncoding_call_total:
  assumes "\<forall>ev \<in> set X. \<forall>row \<in> set ev. length row = F" and "0 < F"
  shows "\<exists>Y. InputEncoding_call num_input_classes X = Inr Y \<and> length Y = length X \<and>
           (\<forall>b < length X. length (Y ! b) = length (X ! b) \<and>
              (\<forall>i < length (X ! b).
                 length (Y ! b ! i) = num_input_classes + (F - 1) \<and>
                 (X ! b ! i ! 0 \<le> -1 \<or> real num_input_classes \<le> X ! b ! i ! 0 \<longrightarrow>
                    take num_input_classes (Y ! b ! i) = replicate num_input_classes 0)))"
proof -
  let ?Y = "map (map (InputEncoding_row num_input_classes)) X"
  have ne: "\<not> (\<exists>ev \<in> set X. \<exists>row \<in> set ev. row = [])" using assms by auto
  then have call: "InputEncoding_call num_input_classes X = Inr ?Y"
    by (simp add: InputEncoding_call_def)
  have rows: "\<forall>b < length X. length (?Y ! b) = length (X ! b) \<and>
      (\<forall>i < length (X ! b).
         length (?Y ! b ! i) = num_input_classes + (F - 1) \<and>
         (X ! b ! i ! 0 \<le> -1 \<or> real num_input_classes \<le> X ! b ! i ! 0 \<longrightarrow>
            take num_input_classes (?Y ! b ! i) = replicate num_input_classes 0))"
  proof (intro allI impI conjI)
    fix b assume b: "b < length X"
    then show "length (?Y ! b) = length (X ! b)" by simp
  next
    fix b i assume b: "b < length X" and i: "i < length (X ! b)"
    then have "length (X ! b ! i) = F" using assms(1) by (meson nth_mem)
    then show "length (?Y ! b ! i) = num_input_classes + (F - 1)"
      using b i by (simp add: InputEncoding_row_def)
  next
    fix b i assume b: "b < length X" and i: "i < length (X ! b)"
      and o: "X ! b ! i ! 0 \<le> -1 \<or> real num_input_classes \<le> X ! b ! i ! 0"
    from cast_int32_out_of_range [OF o]
    have "one_hot (cast_int32 (X ! b ! i ! 0)) num_input_classes
            = replicate num_input_classes 0"
      by (rule one_hot_out_of_range)
    then show "take num_input_classes (?Y ! b ! i) = replicate num_input_classes 0"
      using b i by (simp add: InputEncoding_row_def)
  qed
  from call rows show ?thesis by simp
qed

theorem InputEncoding_call_total_witness:
  "\<exists>Y. InputEncoding_call 3 [[[5, 7], [-1, 2], [1, 4]]] = Inr Y \<and> length Y = 1 \<and>
     length (Y ! 0) = 3 \<and> length (Y ! 0 ! 0) = 3 + (2 - 1) \<and>
     take 3 (Y ! 0 ! 0) = replicate 3 0 \<and> take 3 (Y ! 0 ! 1) = replicate 3 0"
proof -
  have h: "\<forall>ev \<in> set [[[5, 7], [-1, 2], [1, 4::real]]]. \<forall>row \<in> set ev. length row = 2"
    by simp
  from InputEncoding_call_total [OF h, of 3] obtain Y where
    Y: "InputEncoding_call 3 [[[5, 7], [-1, 2], [1, 4]]] = Inr Y" "length Y = 1"
    "\<forall>b < 1. length (Y ! b) = length ([[[5, 7], [-1, 2], [1, 4::real]]] ! b) \<and>
       (\<forall>i < length ([[[5, 7], [-1, 2], [1, 4::real]]] ! b).
          length (Y ! b ! i) = 3 + (2 - 1) \<and>
          ([[[5, 7], [-1, 2], [1, 4::real]]] ! b ! i ! 0 \<le> -1 \<or>
             real 3 \<le> [[[5, 7], [-1, 2], [1, 4::real]]] ! b ! i ! 0 \<longrightarrow>
           take 3 (Y ! b ! i) = replicate 3 0))"
    by auto
  from Y(3) have "length (Y ! 0) = 3" by simp
  moreover from Y(3) have "length (Y ! 0 ! 0) = 3 + (2 - 1) \<and> take 3 (Y ! 0 ! 0) = replicate 3 0"
    by force
  moreover from Y(3) have "take 3 (Y ! 0 ! 1) = replicate 3 0"
    by force
  ultimately show ?thesis using Y(1,2) by blast
qed

section \<open>Momentum and energy outputs are positive and bounded\<close>

lemma PFNetDense_call_nth:
  assumes "PFNetDense_call M upstream_layers X = Inr Y"
  shows "\<exists>up. upstream_layers X = Inr up \<and>
           (\<forall>b < length X. \<forall>i < length (X ! b).
              PFNetDense_call_element M (X ! b ! i ! 0) (up b i) = Inr (Y ! b ! i))"
proof (cases "upstream_layers X")
  case (Inl e)
  with assms show ?thesis by (simp add: PFNetDense_call_def split: if_splits)
next
  case (Inr up)
  let ?row = "\<lambda>b. sequence_err
      (map (\<lambda>i. PFNetDense_call_element M (X ! b ! i ! 0) (up b i)) [0..<length (X ! b)])"
  from assms Inr have all: "sequence_err (map ?row [0..<length X]) = Inr Y"
    by (simp add: PFNetDense_call_def split: if_splits)
  have "\<forall>b < length X. \<forall>i < length (X ! b).
      PFNetDense_call_element M (X ! b ! i ! 0) (up b i) = Inr (Y ! b ! i)"
  proof (intro allI impI)
    fix b i assume b: "b < length X" and i: "i < length (X ! b)"
    from sequence_err_InrD [OF all] b have "?row b = Inr (Y ! b)" by simp
    from sequence_err_InrD [OF this] i
    show "PFNetDense_call_element M (X ! b ! i ! 0) (up b i) = Inr (Y ! b ! i)" by simp
  qed
  with Inr show ?thesis by blast
qed

lemma PFNet_call_nth:
  assumes "PFNet_call M upstream_layers X = Inr Y"
  shows "\<exists>up. upstream_layers X = Inr up \<and>
           (\<forall>b < length X. \<forall>i < length (X ! b).
              Y ! b ! i = PFNet_call_element M (X ! b ! i ! 0) (up b i))"
proof (cases "upstream_layers X")
  case (Inl e)
  with assms show ?thesis by (simp add: PFNet_call_def split: if_splits)
next
  case (Inr up)
  with assms have "Y = map (\<lambda>b. map (\<lambda>i. PFNet_call_element M (X ! b ! i ! 0) (up b i))
      [0..<length (X ! b)]) [0..<length X]"
    by (simp add: PFNet_call_def split: if_splits)
  then have "\<forall>b < length X. \<forall>i < length (X ! b).
      Y ! b ! i = PFNet_call_element M (X ! b ! i ! 0) (up b i)" by simp
  with Inr show ?thesis by blast
qed

lemma exp_clip_bounds:
  assumes "v \<in> set (map (\<lambda>x. exp (clip_by_value x lo hi)) xs)" and "lo \<le> hi"
  shows "0 < v \<and> exp lo \<le> v \<and> v \<le> exp hi"
proof -
  from assms(1) obtain x where v: "v = exp (clip_by_value x lo hi)" by auto
  have "lo \<le> clip_by_value x lo hi" "clip_by_value x lo hi \<le> hi"
    using assms(2) by (auto simp: clip_by_value_def)
  with v show ?thesis by simp
qed

lemma PFNetDense_ret_fields:
  assumes "PFNetDense_ret M x0 up = Inr r"
  shows "\<exists>pred_momentum.
           PFNetDense_pred_momentum M (msk_input_of x0) up = Inr pred_momentum \<and>
           cls r = PFNetDense_out_id_softmax M (msk_input_of x0) up \<and>
           charge r = PFNetDense_out_charge M (msk_input_of x0) up \<and>
           pt r = map (\<lambda>v. exp (clip_by_value v (-6) 8)) (slice 0 1 pred_momentum) \<and>
           eta r = slice 1 2 pred_momentum \<and> sin_phi r = slice 2 3 pred_momentum \<and>
           cos_phi r = slice 3 4 pred_momentum \<and>
           energy r = map (\<lambda>v. exp (clip_by_value v (-6) 8)) (slice 4 5 pred_momentum)"
proof (cases "PFNetDense_pred_momentum M (msk_input_of x0) up")
  case (Inl e)
  with assms show ?thesis by (simp add: PFNetDense_ret_def)
next
  case (Inr pm)
  with assms have "r = \<lparr>cls = PFNetDense_out_id_softmax M (msk_input_of x0) up,
       charge = PFNetDense_out_charge M (msk_input_of x0) up,
       pt = map (\<lambda>v. exp (clip_by_value v (-6) 8)) (slice 0 1 pm),
       eta = slice 1 2 pm, sin_phi = slice 2 3 pm, cos_phi = slice 3 4 pm,
       energy = map (\<lambda>v. exp (clip_by_value v (-6) 8)) (slice 4 5 pm)\<rparr>"
    by (simp add: PFNetDense_ret_def)
  then show ?thesis using Inr by simp
qed

lemma PFNetDense_ret_pt_energy:
  assumes "PFNetDense_ret M x0 up = Inr r"
  shows "\<exists>pred_momentum.
           pt r = map (\<lambda>v. exp (clip_by_value v (-6) 8)) (slice 0 1 pred_momentum) \<and>
           energy r = map (\<lambda>v. exp (clip_by_value v (-6) 8)) (slice 4 5 pred_momentum)"
  using PFNetDense_ret_fields [OF assms] by blast

lemma PFNetDense_call_element_forms:
  assumes "PFNetDense_call_element M x0 up = Inr out"
  shows "\<exists>r. PFNetDense_ret M x0 up = Inr r \<and>
           out = (if multi_output M then Named r
                  else Concatenated (cls r @ charge r @ pt r @ eta r @ sin_phi r @
                                     cos_phi r @ energy r))"
proof (cases "PFNetDense_ret M x0 up")
  case (Inl e)
  with assms show ?thesis by (simp add: PFNetDense_call_element_def)
next
  case (Inr r)
  with assms show ?thesis by (simp add: PFNetDense_call_element_def)
qed

lemma PFNet_call_element_fields:
  assumes "PFNet_call_element P x0 up = Named r"
  shows "cls r = PFNet_out_id_softmax P (msk_input_of x0) up \<and>
         charge r = PFNet_out_charge P (msk_input_of x0) up \<and>
         pt r = map (\<lambda>v. exp (clip_by_value v (-4) 4))
                  (slice 0 1 (PFNet_pred_momentum P (msk_input_of x0) up)) \<and>
         eta r = slice 1 2 (PFNet_pred_momentum P (msk_input_of x0) up) \<and>
         sin_phi r = slice 2 3 (PFNet_pred_momentum P (msk_input_of x0) up) \<and>
         cos_phi r = slice 3 4 (PFNet_pred_momentum P (msk_input_of x0) up) \<and>
         energy r = map (\<lambda>v. exp (clip_by_value v (-5) 6))
                      (slice 4 5 (PFNet_pred_momentum P (msk_input_of x0) up))"
proof (cases "pf_multi_output P")
  case True
  with assms have "r = \<lparr>cls = PFNet_out_id_softmax P (msk_input_of x0) up,
       charge = PFNet_out_charge P (msk_input_of x0) up,
       pt = map (\<lambda>v. exp (clip_by_value v (-4) 4))
              (slice 0 1 (PFNet_pred_momentum P (msk_input_of x0) up)),
       eta = slice 1 2 (PFNet_pred_momentum P (msk_input_of x0) up),
       sin_phi = slice 2 3 (PFNet_pred_momentum P (msk_input_of x0) up),
       cos_phi = slice 3 4 (PFNet_pred_momentum P (msk_input_of x0) up),
       energy = map (\<lambda>v. exp (clip_by_value v (-5) 6))
                  (slice 4 5 (PFNet_pred_momentum P (msk_input_of x0) up))\<rparr>"
    by (simp add: PFNet_call_element_def)
  then show ?thesis by simp
next
  case False
  with assms show ?thesis by (simp add: PFNet_call_element_def)
qed

lemma PFNet_call_element_pt_energy:
  assumes "PFNet_call_element P x0 up = Named r"
  shows "\<exists>pred_momentum.
           pt r = map (\<lambda>v. exp (clip_by_value v (-4) 4)) (slice 0 1 pred_momentum) \<and>
           energy r = map (\<lambda>v. exp (clip_by_value v (-5) 6)) (slice 4 5 pred_momentum)"
  using PFNet_call_element_fields [OF assms] by blast

text \<open>
  Claim C6, as the code has it. Whatever the regression heads deliver, at every position
  of a batch the \<open>pt\<close> and \<open>energy\<close> outputs of \<open>PFNetDense\<close> (returned as named outputs
  or concatenated) and the named \<open>pt\<close> and \<open>energy\<close> outputs of \<open>PFNet\<close> are the
  exponential of the regression pre-activation \<open>pred_momentum\<close> clipped into a fixed
  range, hence positive and inside the exponentials of the range's ends: \<open>[-6, 8]\<close> for
  both outputs of \<open>PFNetDense\<close>, \<open>[-4, 4]\<close> for \<open>pt\<close> and \<open>[-5, 6]\<close> for \<open>energy\<close> of
  \<open>PFNet\<close> with \<open>multi_output\<close>.
\<close>

theorem pt_energy_exp_of_clipped:
  "(PFNetDense_call M dense_layers X = Inr Y \<and> b < length X \<and> i < length (X ! b) \<longrightarrow>
      (\<exists>up r pred_momentum.
         dense_layers X = Inr up \<and>
         PFNetDense_pred_momentum M (msk_input_of (X ! b ! i ! 0)) (up b i)
           = Inr pred_momentum \<and>
         PFNetDense_ret M (X ! b ! i ! 0) (up b i) = Inr r \<and>
         Y ! b ! i = (if multi_output M then Named r
                      else Concatenated (cls r @ charge r @ pt r @ eta r @ sin_phi r @
                                         cos_phi r @ energy r)) \<and>
         pt r = map (\<lambda>v. exp (clip_by_value v (-6) 8)) (slice 0 1 pred_momentum) \<and>
         energy r = map (\<lambda>v. exp (clip_by_value v (-6) 8)) (slice 4 5 pred_momentum) \<and>
         (\<forall>v \<in> set (pt r). 0 < v \<and> exp (-6) \<le> v \<and> v \<le> exp 8) \<and>
         (\<forall>v \<in> set (energy r). 0 < v \<and> exp (-6) \<le> v \<and> v \<le> exp 8)))
   \<and> (PFNet_call P sparse_layers X' = Inr Y' \<and> pf_multi_output P \<and>
        b' < length X' \<and> i' < length (X' ! b') \<longrightarrow>
      (\<exists>up r.
         sparse_layers X' = Inr up \<and> Y' ! b' ! i' = Named r \<and>
         pt r = map (\<lambda>v. exp (clip_by_value v (-4) 4))
                  (slice 0 1 (PFNet_pred_momentum P (msk_input_of (X' ! b' ! i' ! 0))
                                (up b' i'))) \<and>
         energy r = map (\<lambda>v. exp (clip_by_value v (-5) 6))
                      (slice 4 5 (PFNet_pred_momentum P (msk_input_of (X' ! b' ! i' ! 0))
                                    (up b' i'))) \<and>
         (\<forall>v \<in> set (pt r). 0 < v \<and> exp (-4) \<le> v \<and> v \<le> exp 4) \<and>
         (\<forall>v \<in> set (energy r). 0 < v \<and> exp (-5) \<le> v \<and> v \<le> exp 6)))"
proof (rule conjI; rule impI)
  assume h: "PFNetDense_call M dense_layers X = Inr Y \<and> b < length X \<and> i < length (X ! b)"
  then obtain up where up: "dense_layers X = Inr up"
    and el: "PFNetDense_call_element M (X ! b ! i ! 0) (up b i) = Inr (Y ! b ! i)"
    using PFNetDense_call_nth [of M dense_layers X Y] by blast
  from PFNetDense_call_element_forms [OF el] obtain r where
    r: "PFNetDense_ret M (X ! b ! i ! 0) (up b i) = Inr r"
    and form: "Y ! b ! i = (if multi_output M then Named r
         else Concatenated (cls r @ charge r @ pt r @ eta r @ sin_phi r @ cos_phi r @
                            energy r))"
    by blast
  from PFNetDense_ret_fields [OF r] obtain pm where
    pm: "PFNetDense_pred_momentum M (msk_input_of (X ! b ! i ! 0)) (up b i) = Inr pm"
    and p: "pt r = map (\<lambda>v. exp (clip_by_value v (-6) 8)) (slice 0 1 pm)"
    and e: "energy r = map (\<lambda>v. exp (clip_by_value v (-6) 8)) (slice 4 5 pm)"
    by blast
  have 1: "\<forall>v \<in> set (pt r). 0 < v \<and> exp (-6) \<le> v \<and> v \<le> exp 8"
    using p exp_clip_bounds [of _ "-6" 8 "slice 0 1 pm"] by simp
  have 2: "\<forall>v \<in> set (energy r). 0 < v \<and> exp (-6) \<le> v \<and> v \<le> exp 8"
    using e exp_clip_bounds [of _ "-6" 8 "slice 4 5 pm"] by simp
  show "\<exists>up r pred_momentum.
         dense_layers X = Inr up \<and>
         PFNetDense_pred_momentum M (msk_input_of (X ! b ! i ! 0)) (up b i)
           = Inr pred_momentum \<and>
         PFNetDense_ret M (X ! b ! i ! 0) (up b i) = Inr r \<and>
         Y ! b ! i = (if multi_output M then Named r
                      else Concatenated (cls r @ charge r @ pt r @ eta r @ sin_phi r @
                                         cos_phi r @ energy r)) \<and>
         pt r = map (\<lambda>v. exp (clip_by_value v (-6) 8)) (slice 0 1 pred_momentum) \<and>
         energy r = map (\<lambda>v. exp (clip_by_value v (-6) 8)) (slice 4 5 pred_momentum) \<and>
         (\<forall>v \<in> set (pt r). 0 < v \<and> exp (-6) \<le> v \<and> v \<le> exp 8) \<and>
         (\<forall>v \<in> set (energy r). 0 < v \<and> exp (-6) \<le> v \<and> v \<le> exp 8)"
    by (intro exI [of _ up] exI [of _ r] exI [of _ pm] conjI up pm r form p e 1 2)
next
  assume h: "PFNet_call P sparse_layers X' = Inr Y' \<and> pf_multi_output P \<and>
        b' < length X' \<and> i' < length (X' ! b')"
  then obtain up where up: "sparse_layers X' = Inr up"
    and el: "Y' ! b' ! i' = PFNet_call_element P (X' ! b' ! i' ! 0) (up b' i')"
    using PFNet_call_nth [of P sparse_layers X' Y'] by blast
  define pm where "pm = PFNet_pred_momentum P (msk_input_of (X' ! b' ! i' ! 0)) (up b' i')"
  from h obtain r where nm: "PFNet_call_element P (X' ! b' ! i' ! 0) (up b' i') = Named r"
    by (simp add: PFNet_call_element_def)
  from PFNet_call_element_fields [OF nm] have
    p: "pt r = map (\<lambda>v. exp (clip_by_value v (-4) 4)) (slice 0 1 pm)"
    and e: "energy r = map (\<lambda>v. exp (clip_by_value v (-5) 6)) (slice 4 5 pm)"
    by (simp_all add: pm_def)
  from el nm have y: "Y' ! b' ! i' = Named r" by simp
  have 1: "\<forall>v \<in> set (pt r). 0 < v \<and> exp (-4) \<le> v \<and> v \<le> exp 4"
    using p exp_clip_bounds [of _ "-4" 4 "slice 0 1 pm"] by simp
  have 2: "\<forall>v \<in> set (energy r). 0 < v \<and> exp (-5) \<le> v \<and> v \<le> exp 6"
    using e exp_clip_bounds [of _ "-5" 6 "slice 4 5 pm"] by simp
  show "\<exists>up r.
         sparse_layers X' = Inr up \<and> Y' ! b' ! i' = Named r \<and>
         pt r = map (\<lambda>v. exp (clip_by_value v (-4) 4))
                  (slice 0 1 (PFNet_pred_momentum P (msk_input_of (X' ! b' ! i' ! 0))
                                (up b' i'))) \<and>
         energy r = map (\<lambda>v. exp (clip_by_value v (-5) 6))
                      (slice 4 5 (PFNet_pred_momentum P (msk_input_of (X' ! b' ! i' ! 0))
                                    (up b' i'))) \<and>
         (\<forall>v \<in> set (pt r). 0 < v \<and> exp (-4) \<le> v \<and> v \<le> exp 4) \<and>
         (\<forall>v \<in> set (energy r). 0 < v \<and> exp (-5) \<le> v \<and> v \<le> exp 6)"
    by (intro exI [of _ up] exI [of _ r] conjI up y p [unfolded pm_def] e [unfolded pm_def] 1 2)
qed

theorem pt_energy_exp_of_clipped_witness:
  "PFNetDense_call
     \<lparr>multi_output = True, focal_loss_from_logits = False, skip_connection = False,
      regression_use_classification = True, ffn_id = (\<lambda>v. [0, 0]), ffn_charge = (\<lambda>v. [1]),
      ffn_momentum = Joint (\<lambda>v. [1000000, 0, 0, 0, -1000000]),
      momentum_mult = [1, 1, 1, 1, 1]\<rparr>
     (\<lambda>X. Inr (\<lambda>b i. \<lparr>enc = [], encs_id = [], graph_sum_id = [], encs_reg = [],
                        graph_sum_reg = []\<rparr>))
     [[[1, 5], [2, 3], [1, 4], [2, 6]]]
   = Inr [replicate 4
            (Named \<lparr>cls = [1/2, 1/2], charge = [1], pt = [exp 8], eta = [0], sin_phi = [0],
                    cos_phi = [0], energy = [exp (-6)]\<rparr>)] \<and>
   PFNet_call
     \<lparr>pf_multi_output = True, pf_skip_connection = False, layer_id = (\<lambda>v. [0, 0]),
      layer_charge = (\<lambda>v. [1]), layer_momentum = (\<lambda>v. [1000000, 0, 0, 0, -1000000])\<rparr>
     (\<lambda>X. Inr (\<lambda>b i. \<lparr>pf_enc = [], x_id = [], x_reg = []\<rparr>))
     [[[1, 5], [2, 3], [1, 4], [2, 6]]]
   = Inr [replicate 4
            (Named \<lparr>cls = [1/2, 1/2], charge = [1], pt = [exp 4], eta = [0], sin_phi = [0],
                    cos_phi = [0], energy = [exp (-5)]\<rparr>)] \<and>
   (0::real) < exp 8 \<and> exp (-6) \<le> (exp 8 :: real) \<and> (0::real) < exp (-6) \<and>
   (0::real) < exp 4 \<and> exp (-4) \<le> (exp 4 :: real) \<and> (0::real) < exp (-5) \<and>
   exp (-5) \<le> (exp 6 :: real)"
proof -
  let ?M = "\<lparr>multi_output = True, focal_loss_from_logits = False, skip_connection = False,
      regression_use_classification = True, ffn_id = (\<lambda>v. [0, 0::real]),
      ffn_charge = (\<lambda>v. [1::real]),
      ffn_momentum = Joint (\<lambda>v. [1000000, 0, 0, 0, -1000000]),
      momentum_mult = [1, 1, 1, 1, 1]\<rparr>"
  let ?L = "\<lambda>X :: mat list. Inr (\<lambda>(b::nat) (i::nat).
      \<lparr>enc = [], encs_id = [], graph_sum_id = [], encs_reg = [], graph_sum_reg = []\<rparr>)
      :: error + (nat \<Rightarrow> nat \<Rightarrow> upstream)"
  let ?P = "\<lparr>pf_multi_output = True, pf_skip_connection = False,
      layer_id = (\<lambda>v. [0, 0::real]), layer_charge = (\<lambda>v. [1::real]),
      layer_momentum = (\<lambda>v. [1000000, 0, 0, 0, -1000000::real])\<rparr>"
  let ?L' = "\<lambda>X :: mat list. Inr (\<lambda>(b::nat) (i::nat). \<lparr>pf_enc = [], x_id = [], x_reg = []\<rparr>)
      :: error + (nat \<Rightarrow> nat \<Rightarrow> pf_upstream)"
  let ?X = "[[[1, 5], [2, 3], [1, 4], [2, 6::real]]]"
  let ?rD = "\<lparr>cls = [1/2, 1/2], charge = [1], pt = [exp 8], eta = [0], sin_phi = [0],
      cos_phi = [0], energy = [exp (-6 :: real)]\<rparr>"
  let ?rP = "\<lparr>cls = [1/2, 1/2], charge = [1], pt = [exp 4], eta = [0], sin_phi = [0],
      cos_phi = [0], energy = [exp (-5 :: real)]\<rparr>"
  have el: "\<And>x0 u. x0 \<noteq> 0 \<Longrightarrow> PFNetDense_call_element ?M x0 u = Inr (Named ?rD)"
    by (simp add: PFNetDense_call_element_def PFNetDense_ret_def
        PFNetDense_pred_momentum_def PFNetDense_dec_output_reg_def
        PFNetDense_out_id_logits_def PFNetDense_dec_output_id_def
        PFNetDense_out_id_softmax_def PFNetDense_out_charge_def msk_input_of_def
        broadcast_mul_def softmax_def clip_by_value_def slice_def)
  have d: "PFNetDense_call ?M ?L ?X = Inr [replicate 4 (Named ?rD)]"
    by (simp add: PFNetDense_call_def el upt_rec eval_nat_numeral)
  have el': "\<And>x0 u. x0 \<noteq> 0 \<Longrightarrow> PFNet_call_element ?P x0 u = Named ?rP"
    by (simp add: PFNet_call_element_def PFNet_pred_momentum_def
        PFNet_out_id_logits_def PFNet_out_id_softmax_def PFNet_out_charge_def
        msk_input_of_def softmax_def clip_by_value_def slice_def)
  have p: "PFNet_call ?P ?L' ?X = Inr [replicate 4 (Named ?rP)]"
    by (simp add: PFNet_call_def el' upt_rec eval_nat_numeral)
  from pt_energy_exp_of_clipped
    [of ?M ?L ?X "[replicate 4 (Named ?rD)]" 0 0 ?P ?L' ?X "[replicate 4 (Named ?rP)]" 0 0]
    d p
  show ?thesis by auto
qed

text \<open>
  Claim C6 as stated, for the \<open>pt\<close> and \<open>energy\<close> outputs of both top-level models, fails
  for \<open>PFNet\<close> without \<open>multi_output\<close>: the forward pass returns the concatenation of the
  class probabilities, the charge and the raw \<open>pred_momentum\<close>, so the momentum and energy
  columns are the pre-activations themselves (here \<open>1000000\<close> and \<open>-1000000\<close>), neither
  clipped nor exponentiated.
\<close>

theorem pt_energy_exp_of_clipped_counterexample:
  "PFNet_call
     \<lparr>pf_multi_output = False, pf_skip_connection = False, layer_id = (\<lambda>v. [0, 0]),
      layer_charge = (\<lambda>v. [1]), layer_momentum = (\<lambda>v. [1000000, 0, 0, 0, -1000000])\<rparr>
     (\<lambda>X. Inr (\<lambda>b i. \<lparr>pf_enc = [], x_id = [], x_reg = []\<rparr>))
     [[[1, 5], [2, 3], [1, 4], [2, 6]]]
   = Inr [replicate 4 (Concatenated [1/2, 1/2, 1, 1000000, 0, 0, 0, -1000000])]"
proof -
  have el: "\<And>x0 u. x0 \<noteq> 0 \<Longrightarrow>
      PFNet_call_element
        \<lparr>pf_multi_output = False, pf_skip_connection = False, layer_id = (\<lambda>v. [0, 0]),
         layer_charge = (\<lambda>v. [1]), layer_momentum = (\<lambda>v. [1000000, 0, 0, 0, -1000000])\<rparr>
        x0 u
      = Concatenated [1/2, 1/2, 1, 1000000, 0, 0, 0, -1000000]"
    by (simp add: PFNet_call_element_def PFNet_pred_momentum_def
        PFNet_out_id_logits_def PFNet_out_id_softmax_def PFNet_out_charge_def
        msk_input_of_def softmax_def clip_by_value_def)
  show ?thesis by (simp add: PFNet_call_def el upt_rec eval_nat_numeral)
qed

section \<open>Outputs at masked elements\<close>

lemma broadcast_mul_zero:
  assumes "broadcast_mul a b = Inr c" and "\<forall>v \<in> set b. v = 0"
  shows "\<forall>v \<in> set c. v = 0"
proof
  fix v assume v: "v \<in> set c"
  consider (eq) "length a = length b" "c = map2 (*) a b"
    | (left) "length a = 1" "c = map (\<lambda>y. a ! 0 * y) b"
    | (right) "length b = 1" "c = map (\<lambda>x. x * b ! 0) a"
    using assms(1) by (auto simp: broadcast_mul_def split: if_splits)
  then show "v = 0"
  proof cases
    case eq
    with v obtain x y where "(x, y) \<in> set (zip a b)" "v = x * y" by auto
    moreover then have "y \<in> set b" by (meson set_zip_rightD)
    ultimately show ?thesis using assms(2) by simp
  next
    case left
    with v assms(2) show ?thesis by auto
  next
    case right
    then have "b ! 0 \<in> set b" by (simp add: nth_mem)
    then have "b ! 0 = 0" using assms(2) by blast
    with right v show ?thesis by auto
  qed
qed

lemma set_slice: "set (slice a b v) \<subseteq> set v"
  unfolding slice_def by (meson set_take_subset set_drop_subset subset_trans)

lemma softmax_zeros:
  assumes "\<forall>v \<in> set xs. v = 0" and "p \<in> set (map (\<lambda>q. clip_by_value q 0 1) (softmax xs))"
  shows "p = 1 / real (length xs)"
proof -
  have xs: "xs = replicate (length xs) 0"
    using assms(1) by (simp add: replicate_length_same)
  have "map exp xs = replicate (length xs) (1::real)"
    by (subst xs) simp
  then have s: "sum_list (map exp xs) = real (length xs)"
    by (simp add: sum_list_replicate)
  from assms(2) obtain x where x: "x \<in> set xs" "p = clip_by_value (exp x / sum_list (map exp xs)) 0 1"
    by (auto simp: softmax_def)
  then have n: "0 < length xs" by (cases xs) auto
  from x(1) assms(1) have "x = 0" by blast
  with x(2) s have "p = clip_by_value (1 / real (length xs)) 0 1" by simp
  moreover have "0 \<le> 1 / real (length xs)" by simp
  moreover have "1 / real (length xs) \<le> 1"
  proof -
    from n have "Suc 0 \<le> length xs" by (cases xs) simp_all
    then have ge: "1 \<le> real (length xs)" by (metis One_nat_def of_nat_1 of_nat_le_iff)
    then have pos: "0 < real (length xs)" by linarith
    from divide_le_eq_1_pos [OF pos, of 1] ge show ?thesis by blast
  qed
  ultimately show ?thesis by (simp add: clip_by_value_def)
qed

lemma PFNetDense_pred_momentum_masked:
  assumes "PFNetDense_pred_momentum M 0 up = Inr pm"
  shows "\<forall>v \<in> set pm. v = 0"
proof (cases "ffn_momentum M")
  case (Separate ffns)
  with assms have "broadcast_mul (momentum_mult M)
      (map (\<lambda>v. v * 0) (concat (map (\<lambda>ffn. ffn (PFNetDense_dec_output_reg M 0 up)) ffns)))
      = Inr pm"
    by (simp add: PFNetDense_pred_momentum_def)
  then show ?thesis by (rule broadcast_mul_zero) simp
next
  case (Joint ffn)
  with assms have "broadcast_mul (momentum_mult M)
      (map (\<lambda>v. v * 0) (ffn (PFNetDense_dec_output_reg M 0 up))) = Inr pm"
    by (simp add: PFNetDense_pred_momentum_def)
  then show ?thesis by (rule broadcast_mul_zero) simp
qed

lemma exp_clip_zero:
  assumes "\<forall>v \<in> set pm. v = 0" and "lo \<le> 0" and "0 \<le> hi"
    and "v \<in> set (map (\<lambda>x. exp (clip_by_value x lo hi)) (slice a b pm))"
  shows "v = 1"
proof -
  from assms(4) obtain x where x: "x \<in> set (slice a b pm)" "v = exp (clip_by_value x lo hi)"
    by auto
  from x(1) set_slice [of a b pm] have "x \<in> set pm" by auto
  with assms(1) have "x = 0" by blast
  with x(2) assms(2,3) show ?thesis by (simp add: clip_by_value_def)
qed

lemma PFNetDense_ret_masked:
  assumes "PFNetDense_ret M 0 up = Inr r"
  shows "(\<forall>v \<in> set (charge r). v = 0) \<and> (\<forall>v \<in> set (eta r). v = 0) \<and>
         (\<forall>v \<in> set (sin_phi r). v = 0) \<and> (\<forall>v \<in> set (cos_phi r). v = 0) \<and>
         (\<forall>v \<in> set (pt r). v = 1) \<and> (\<forall>v \<in> set (energy r). v = 1) \<and>
         (\<forall>p \<in> set (cls r).
            p = (if focal_loss_from_logits M then 0 else 1 / real (length (cls r))))"
proof -
  have m0: "msk_input_of 0 = 0" by (simp add: msk_input_of_def)
  from PFNetDense_ret_fields [OF assms] m0 obtain pm where
    pm: "PFNetDense_pred_momentum M 0 up = Inr pm"
    and c: "cls r = PFNetDense_out_id_softmax M 0 up"
    and ch: "charge r = PFNetDense_out_charge M 0 up"
    and p: "pt r = map (\<lambda>v. exp (clip_by_value v (-6) 8)) (slice 0 1 pm)"
    and e: "eta r = slice 1 2 pm" and s: "sin_phi r = slice 2 3 pm"
    and co: "cos_phi r = slice 3 4 pm"
    and en: "energy r = map (\<lambda>v. exp (clip_by_value v (-6) 8)) (slice 4 5 pm)"
    by auto
  from PFNetDense_pred_momentum_masked [OF pm] have z: "\<forall>v \<in> set pm. v = 0" .
  have lz: "\<forall>v \<in> set (PFNetDense_out_id_logits M 0 up). v = 0"
    by (simp add: PFNetDense_out_id_logits_def)
  have 1: "\<forall>v \<in> set (charge r). v = 0"
    unfolding ch by (simp add: PFNetDense_out_charge_def clip_by_value_def)
  have 2: "\<forall>v \<in> set (eta r). v = 0"
    unfolding e using z set_slice [of 1 2 pm] by blast
  have 3: "\<forall>v \<in> set (sin_phi r). v = 0"
    unfolding s using z set_slice [of 2 3 pm] by blast
  have 4: "\<forall>v \<in> set (cos_phi r). v = 0"
    unfolding co using z set_slice [of 3 4 pm] by blast
  have 5: "\<forall>v \<in> set (pt r). v = 1"
  proof
    fix v assume "v \<in> set (pt r)"
    then have mem: "v \<in> set (map (\<lambda>x. exp (clip_by_value x (-6) 8)) (slice 0 1 pm))"
      using p by simp
    have "(-6::real) \<le> 0" "(0::real) \<le> 8" by simp_all
    from exp_clip_zero [OF z this mem] show "v = 1" .
  qed
  have 6: "\<forall>v \<in> set (energy r). v = 1"
  proof
    fix v assume "v \<in> set (energy r)"
    then have mem: "v \<in> set (map (\<lambda>x. exp (clip_by_value x (-6) 8)) (slice 4 5 pm))"
      using en by simp
    have "(-6::real) \<le> 0" "(0::real) \<le> 8" by simp_all
    from exp_clip_zero [OF z this mem] show "v = 1" .
  qed
  have 7: "\<forall>p \<in> set (cls r).
      p = (if focal_loss_from_logits M then 0 else 1 / real (length (cls r)))"
  proof (cases "focal_loss_from_logits M")
    case True
    then have "cls r = PFNetDense_out_id_logits M 0 up"
      using c by (simp add: PFNetDense_out_id_softmax_def)
    with lz True show ?thesis by simp
  next
    case False
    then have c': "cls r = map (\<lambda>p. clip_by_value p 0 1)
        (softmax (PFNetDense_out_id_logits M 0 up))"
      using c by (simp add: PFNetDense_out_id_softmax_def)
    then have ll: "length (cls r) = length (PFNetDense_out_id_logits M 0 up)"
      by (simp add: softmax_def)
    have "\<forall>p \<in> set (cls r). p = 1 / real (length (cls r))"
    proof
      fix p assume "p \<in> set (cls r)"
      then have "p \<in> set (map (\<lambda>q. clip_by_value q 0 1)
          (softmax (PFNetDense_out_id_logits M 0 up)))" using c' by simp
      from softmax_zeros [OF lz this] ll show "p = 1 / real (length (cls r))" by simp
    qed
    with False show ?thesis by simp
  qed
  show ?thesis by (intro conjI 1 2 3 4 5 6 7)
qed

lemma PFNet_call_element_masked:
  assumes "PFNet_call_element P 0 up = Named r"
  shows "(\<forall>v \<in> set (charge r). v = 0) \<and> (\<forall>v \<in> set (eta r). v = 0) \<and>
         (\<forall>v \<in> set (sin_phi r). v = 0) \<and> (\<forall>v \<in> set (cos_phi r). v = 0) \<and>
         (\<forall>v \<in> set (pt r). v = 1) \<and> (\<forall>v \<in> set (energy r). v = 1) \<and>
         (\<forall>p \<in> set (cls r). p = 1 / real (length (cls r)))"
proof -
  have m0: "msk_input_of 0 = 0" by (simp add: msk_input_of_def)
  define pm where "pm = PFNet_pred_momentum P 0 up"
  from PFNet_call_element_fields [OF assms] m0 have
    c: "cls r = PFNet_out_id_softmax P 0 up"
    and ch: "charge r = PFNet_out_charge P 0 up"
    and p: "pt r = map (\<lambda>v. exp (clip_by_value v (-4) 4)) (slice 0 1 pm)"
    and e: "eta r = slice 1 2 pm" and s: "sin_phi r = slice 2 3 pm"
    and co: "cos_phi r = slice 3 4 pm"
    and en: "energy r = map (\<lambda>v. exp (clip_by_value v (-5) 6)) (slice 4 5 pm)"
    by (simp_all add: pm_def)
  have z: "\<forall>v \<in> set pm. v = 0" by (simp add: pm_def PFNet_pred_momentum_def)
  have lz: "\<forall>v \<in> set (PFNet_out_id_logits P 0 up). v = 0"
    by (simp add: PFNet_out_id_logits_def)
  have 1: "\<forall>v \<in> set (charge r). v = 0"
    unfolding ch by (simp add: PFNet_out_charge_def clip_by_value_def)
  have 2: "\<forall>v \<in> set (eta r). v = 0"
    unfolding e using z set_slice [of 1 2 pm] by blast
  have 3: "\<forall>v \<in> set (sin_phi r). v = 0"
    unfolding s using z set_slice [of 2 3 pm] by blast
  have 4: "\<forall>v \<in> set (cos_phi r). v = 0"
    unfolding co using z set_slice [of 3 4 pm] by blast
  have 5: "\<forall>v \<in> set (pt r). v = 1"
  proof
    fix v assume "v \<in> set (pt r)"
    then have mem: "v \<in> set (map (\<lambda>x. exp (clip_by_value x (-4) 4)) (slice 0 1 pm))"
      using p by simp
    have "(-4::real) \<le> 0" "(0::real) \<le> 4" by simp_all
    from exp_clip_zero [OF z this mem] show "v = 1" .
  qed
  have 6: "\<forall>v \<in> set (energy r). v = 1"
  proof
    fix v assume "v \<in> set (energy r)"
    then have mem: "v \<in> set (map (\<lambda>x. exp (clip_by_value x (-5) 6)) (slice 4 5 pm))"
      using en by simp
    have "(-5::real) \<le> 0" "(0::real) \<le> 6" by simp_all
    from exp_clip_zero [OF z this mem] show "v = 1" .
  qed
  have c': "cls r = map (\<lambda>p. clip_by_value p 0 1) (softmax (PFNet_out_id_logits P 0 up))"
    using c by (simp add: PFNet_out_id_softmax_def)
  then have ll: "length (cls r) = length (PFNet_out_id_logits P 0 up)"
    by (simp add: softmax_def)
  have 7: "\<forall>p \<in> set (cls r). p = 1 / real (length (cls r))"
  proof
    fix p assume "p \<in> set (cls r)"
    then have "p \<in> set (map (\<lambda>q. clip_by_value q 0 1)
        (softmax (PFNet_out_id_logits P 0 up)))" using c' by simp
    from softmax_zeros [OF lz this] ll show "p = 1 / real (length (cls r))" by simp
  qed
  show ?thesis by (intro conjI 1 2 3 4 5 6 7)
qed

text \<open>
  Claim C1, as the code has it. At a position \<open>(b, i)\<close> with \<open>X[b, i, 0] = 0\<close> the
  outputs \<open>charge\<close>, \<open>eta\<close>, \<open>sin_phi\<close> and \<open>cos_phi\<close> are exactly zero. The mask is
  applied before the exponential and the softmax, so \<open>pt\<close> and \<open>energy\<close> are
  \<open>exp 0 = 1\<close> there and the class probabilities are uniform (\<open>1/K\<close> for \<open>K\<close> classes);
  with \<open>focal_loss_from_logits\<close> the \<open>cls\<close> output of \<open>PFNetDense\<close> is the masked logits,
  hence zero. This holds for the outputs of \<open>PFNetDense\<close> (named or concatenated) and
  the named outputs of \<open>PFNet\<close>.
\<close>

theorem masked_element_outputs:
  "(PFNetDense_call M dense_layers X = Inr Y \<and> b < length X \<and> i < length (X ! b) \<and>
      X ! b ! i ! 0 = 0 \<longrightarrow>
      (\<exists>up r. dense_layers X = Inr up \<and> PFNetDense_ret M 0 (up b i) = Inr r \<and>
         Y ! b ! i = (if multi_output M then Named r
                      else Concatenated (cls r @ charge r @ pt r @ eta r @ sin_phi r @
                                         cos_phi r @ energy r)) \<and>
         (\<forall>v \<in> set (charge r). v = 0) \<and> (\<forall>v \<in> set (eta r). v = 0) \<and>
         (\<forall>v \<in> set (sin_phi r). v = 0) \<and> (\<forall>v \<in> set (cos_phi r). v = 0) \<and>
         (\<forall>v \<in> set (pt r). v = 1) \<and> (\<forall>v \<in> set (energy r). v = 1) \<and>
         (\<forall>p \<in> set (cls r).
            p = (if focal_loss_from_logits M then 0 else 1 / real (length (cls r))))))
   \<and> (PFNet_call P sparse_layers X' = Inr Y' \<and> pf_multi_output P \<and>
        b' < length X' \<and> i' < length (X' ! b') \<and> X' ! b' ! i' ! 0 = 0 \<longrightarrow>
      (\<exists>r. Y' ! b' ! i' = Named r \<and>
         (\<forall>v \<in> set (charge r). v = 0) \<and> (\<forall>v \<in> set (eta r). v = 0) \<and>
         (\<forall>v \<in> set (sin_phi r). v = 0) \<and> (\<forall>v \<in> set (cos_phi r). v = 0) \<and>
         (\<forall>v \<in> set (pt r). v = 1) \<and> (\<forall>v \<in> set (energy r). v = 1) \<and>
         (\<forall>p \<in> set (cls r). p = 1 / real (length (cls r)))))"
proof (rule conjI; rule impI)
  assume h: "PFNetDense_call M dense_layers X = Inr Y \<and> b < length X \<and> i < length (X ! b) \<and>
      X ! b ! i ! 0 = 0"
  then obtain up where up: "dense_layers X = Inr up"
    and el: "PFNetDense_call_element M (X ! b ! i ! 0) (up b i) = Inr (Y ! b ! i)"
    using PFNetDense_call_nth [of M dense_layers X Y] by blast
  from el h have "PFNetDense_call_element M 0 (up b i) = Inr (Y ! b ! i)" by simp
  from PFNetDense_call_element_forms [OF this] obtain r where
    r: "PFNetDense_ret M 0 (up b i) = Inr r"
    and form: "Y ! b ! i = (if multi_output M then Named r
         else Concatenated (cls r @ charge r @ pt r @ eta r @ sin_phi r @ cos_phi r @
                            energy r))"
    by blast
  from PFNetDense_ret_masked [OF r] have m:
    "(\<forall>v \<in> set (charge r). v = 0) \<and> (\<forall>v \<in> set (eta r). v = 0) \<and>
     (\<forall>v \<in> set (sin_phi r). v = 0) \<and> (\<forall>v \<in> set (cos_phi r). v = 0) \<and>
     (\<forall>v \<in> set (pt r). v = 1) \<and> (\<forall>v \<in> set (energy r). v = 1) \<and>
     (\<forall>p \<in> set (cls r).
        p = (if focal_loss_from_logits M then 0 else 1 / real (length (cls r))))" .
  show "\<exists>up r. dense_layers X = Inr up \<and> PFNetDense_ret M 0 (up b i) = Inr r \<and>
         Y ! b ! i = (if multi_output M then Named r
                      else Concatenated (cls r @ charge r @ pt r @ eta r @ sin_phi r @
                                         cos_phi r @ energy r)) \<and>
         (\<forall>v \<in> set (charge r). v = 0) \<and> (\<forall>v \<in> set (eta r). v = 0) \<and>
         (\<forall>v \<in> set (sin_phi r). v = 0) \<and> (\<forall>v \<in> set (cos_phi r). v = 0) \<and>
         (\<forall>v \<in> set (pt r). v = 1) \<and> (\<forall>v \<in> set (energy r). v = 1) \<and>
         (\<forall>p \<in> set (cls r).
            p = (if focal_loss_from_logits M then 0 else 1 / real (length (cls r))))"
    apply (rule exI [of _ up], rule exI [of _ r])
    apply (intro conjI up r form)
    using m by simp_all
next
  assume h: "PFNet_call P sparse_layers X' = Inr Y' \<and> pf_multi_output P \<and>
        b' < length X' \<and> i' < length (X' ! b') \<and> X' ! b' ! i' ! 0 = 0"
  then obtain up where up: "sparse_layers X' = Inr up"
    and el: "Y' ! b' ! i' = PFNet_call_element P (X' ! b' ! i' ! 0) (up b' i')"
    using PFNet_call_nth [of P sparse_layers X' Y'] by blast
  from h obtain r where nm: "PFNet_call_element P 0 (up b' i') = Named r"
    by (simp add: PFNet_call_element_def)
  with el h have y: "Y' ! b' ! i' = Named r" by simp
  from PFNet_call_element_masked [OF nm] have m:
    "(\<forall>v \<in> set (charge r). v = 0) \<and> (\<forall>v \<in> set (eta r). v = 0) \<and>
     (\<forall>v \<in> set (sin_phi r). v = 0) \<and> (\<forall>v \<in> set (cos_phi r). v = 0) \<and>
     (\<forall>v \<in> set (pt r). v = 1) \<and> (\<forall>v \<in> set (energy r). v = 1) \<and>
     (\<forall>p \<in> set (cls r). p = 1 / real (length (cls r)))" .
  show "\<exists>r. Y' ! b' ! i' = Named r \<and>
         (\<forall>v \<in> set (charge r). v = 0) \<and> (\<forall>v \<in> set (eta r). v = 0) \<and>
         (\<forall>v \<in> set (sin_phi r). v = 0) \<and> (\<forall>v \<in> set (cos_phi r). v = 0) \<and>
         (\<forall>v \<in> set (pt r). v = 1) \<and> (\<forall>v \<in> set (energy r). v = 1) \<and>
         (\<forall>p \<in> set (cls r). p = 1 / real (length (cls r)))"
    apply (rule exI [of _ r])
    apply (intro conjI y)
    using m by simp_all
qed

theorem masked_element_outputs_witness:
  "PFNetDense_call
     \<lparr>multi_output = True, focal_loss_from_logits = False, skip_connection = False,
      regression_use_classification = True, ffn_id = (\<lambda>v. [0, 0]), ffn_charge = (\<lambda>v. [1]),
      ffn_momentum = Joint (\<lambda>v. [3, 1, 1, 1, 2]), momentum_mult = [1, 1, 1, 1, 1]\<rparr>
     (\<lambda>X. Inr (\<lambda>b i. \<lparr>enc = [], encs_id = [], graph_sum_id = [], encs_reg = [],
                        graph_sum_reg = []\<rparr>))
     [[[1, 5], [2, 3], [0, 0], [0, 0]]]
   = Inr [replicate 2
            (Named \<lparr>cls = [1/2, 1/2], charge = [1], pt = [exp 3], eta = [1], sin_phi = [1],
                    cos_phi = [1], energy = [exp 2]\<rparr>) @
          replicate 2
            (Named \<lparr>cls = [1/2, 1/2], charge = [0], pt = [1], eta = [0], sin_phi = [0],
                    cos_phi = [0], energy = [1]\<rparr>)] \<and>
   PFNet_call
     \<lparr>pf_multi_output = True, pf_skip_connection = False, layer_id = (\<lambda>v. [0, 0]),
      layer_charge = (\<lambda>v. [1]), layer_momentum = (\<lambda>v. [3, 1, 1, 1, 2])\<rparr>
     (\<lambda>X. Inr (\<lambda>b i. \<lparr>pf_enc = [], x_id = [], x_reg = []\<rparr>))
     [[[1, 5], [2, 3], [0, 0], [0, 0]]]
   = Inr [replicate 2
            (Named \<lparr>cls = [1/2, 1/2], charge = [1], pt = [exp 3], eta = [1], sin_phi = [1],
                    cos_phi = [1], energy = [exp 2]\<rparr>) @
          replicate 2
            (Named \<lparr>cls = [1/2, 1/2], charge = [0], pt = [1], eta = [0], sin_phi = [0],
                    cos_phi = [0], energy = [1]\<rparr>)] \<and>
   [[[1, 5], [2, 3], [0, 0], [0, 0::real]]] ! 0 ! 2 ! 0 = 0 \<and>
   (1/2 :: real) = 1 / real (length [1/2, 1/2 :: real])"
proof -
  let ?M = "\<lparr>multi_output = True, focal_loss_from_logits = False, skip_connection = False,
      regression_use_classification = True, ffn_id = (\<lambda>v. [0, 0::real]),
      ffn_charge = (\<lambda>v. [1::real]),
      ffn_momentum = Joint (\<lambda>v. [3, 1, 1, 1, 2]), momentum_mult = [1, 1, 1, 1, 1]\<rparr>"
  let ?L = "\<lambda>X :: mat list. Inr (\<lambda>(b::nat) (i::nat).
      \<lparr>enc = [], encs_id = [], graph_sum_id = [], encs_reg = [], graph_sum_reg = []\<rparr>)
      :: error + (nat \<Rightarrow> nat \<Rightarrow> upstream)"
  let ?P = "\<lparr>pf_multi_output = True, pf_skip_connection = False,
      layer_id = (\<lambda>v. [0, 0::real]), layer_charge = (\<lambda>v. [1::real]),
      layer_momentum = (\<lambda>v. [3, 1, 1, 1, 2::real])\<rparr>"
  let ?L' = "\<lambda>X :: mat list. Inr (\<lambda>(b::nat) (i::nat). \<lparr>pf_enc = [], x_id = [], x_reg = []\<rparr>)
      :: error + (nat \<Rightarrow> nat \<Rightarrow> pf_upstream)"
  let ?X = "[[[1, 5], [2, 3], [0, 0], [0, 0::real]]]"
  let ?rV = "\<lparr>cls = [1/2, 1/2], charge = [1], pt = [exp 3], eta = [1], sin_phi = [1],
      cos_phi = [1], energy = [exp (2 :: real)]\<rparr>"
  let ?rM = "\<lparr>cls = [1/2, 1/2], charge = [0], pt = [1], eta = [0], sin_phi = [0],
      cos_phi = [0], energy = [1 :: real]\<rparr>"
  let ?Y = "[replicate 2 (Named ?rV) @ replicate 2 (Named ?rM)]"
  have el: "\<And>x0 u. PFNetDense_call_element ?M x0 u
      = Inr (Named (if x0 \<noteq> 0 then ?rV else ?rM))"
    by (simp add: PFNetDense_call_element_def PFNetDense_ret_def
        PFNetDense_pred_momentum_def PFNetDense_dec_output_reg_def
        PFNetDense_out_id_logits_def PFNetDense_dec_output_id_def
        PFNetDense_out_id_softmax_def PFNetDense_out_charge_def msk_input_of_def
        broadcast_mul_def softmax_def clip_by_value_def slice_def)
  have d: "PFNetDense_call ?M ?L ?X = Inr ?Y"
    by (simp add: PFNetDense_call_def el upt_rec eval_nat_numeral)
  have el': "\<And>x0 u. PFNet_call_element ?P x0 u = Named (if x0 \<noteq> 0 then ?rV else ?rM)"
    by (simp add: PFNet_call_element_def PFNet_pred_momentum_def
        PFNet_out_id_logits_def PFNet_out_id_softmax_def PFNet_out_charge_def
        msk_input_of_def softmax_def clip_by_value_def slice_def)
  have p: "PFNet_call ?P ?L' ?X = Inr ?Y"
    by (simp add: PFNet_call_def el' upt_rec eval_nat_numeral)
  from masked_element_outputs [of ?M ?L ?X ?Y 0 2 ?P ?L' ?X ?Y 0 2] d p
  show ?thesis by auto
qed

text \<open>
  Claim C1 as stated, every named output exactly zero at a masked position, fails: at the
  padded third element of this event \<open>PFNetDense\<close> returns \<open>pt = 1\<close>, \<open>energy = 1\<close> and
  the class probabilities \<open>1/2, 1/2\<close>.
\<close>

theorem masked_element_outputs_counterexample:
  "[[[1, 5], [2, 3], [0, 0], [0, 0::real]]] ! 0 ! 2 ! 0 = 0 \<and>
   PFNetDense_call_element
     \<lparr>multi_output = True, focal_loss_from_logits = False, skip_connection = False,
      regression_use_classification = True, ffn_id = (\<lambda>v. [0, 0]), ffn_charge = (\<lambda>v. [1]),
      ffn_momentum = Joint (\<lambda>v. [3, 1, 1, 1, 2]), momentum_mult = [1, 1, 1, 1, 1]\<rparr>
     ([[[1, 5], [2, 3], [0, 0], [0, 0]]] ! 0 ! 2 ! 0)
     \<lparr>enc = [], encs_id = [], graph_sum_id = [], encs_reg = [], graph_sum_reg = []\<rparr>
   = Inr (Named \<lparr>cls = [1/2, 1/2], charge = [0], pt = [1], eta = [0], sin_phi = [0],
                  cos_phi = [0], energy = [1]\<rparr>) \<and>
   PFNetDense_call
     \<lparr>multi_output = True, focal_loss_from_logits = False, skip_connection = False,
      regression_use_classification = True, ffn_id = (\<lambda>v. [0, 0]), ffn_charge = (\<lambda>v. [1]),
      ffn_momentum = Joint (\<lambda>v. [3, 1, 1, 1, 2]), momentum_mult = [1, 1, 1, 1, 1]\<rparr>
     (\<lambda>X. Inr (\<lambda>b i. \<lparr>enc = [], encs_id = [], graph_sum_id = [], encs_reg = [],
                        graph_sum_reg = []\<rparr>))
     [[[1, 5], [2, 3], [0, 0], [0, 0]]]
   = Inr [[Named \<lparr>cls = [1/2, 1/2], charge = [1], pt = [exp 3], eta = [1], sin_phi = [1],
                   cos_phi = [1], energy = [exp 2]\<rparr>,
           Named \<lparr>cls = [1/2, 1/2], charge = [1], pt = [exp 3], eta = [1], sin_phi = [1],
                   cos_phi = [1], energy = [exp 2]\<rparr>,
           Named \<lparr>cls = [1/2, 1/2], charge = [0], pt = [1], eta = [0], sin_phi = [0],
                   cos_phi = [0], energy = [1]\<rparr>,
           Named \<lparr>cls = [1/2, 1/2], charge = [0], pt = [1], eta = [0], sin_phi = [0],
                   cos_phi = [0], energy = [1]\<rparr>]]"
  by (simp add: PFNetDense_call_def PFNetDense_call_element_def PFNetDense_ret_def
      PFNetDense_pred_momentum_def PFNetDense_dec_output_reg_def
      PFNetDense_out_id_logits_def PFNetDense_dec_output_id_def
      PFNetDense_out_id_softmax_def PFNetDense_out_charge_def msk_input_of_def
      broadcast_mul_def softmax_def clip_by_value_def slice_def upt_rec eval_nat_numeral)

section \<open>Gate range and masking of the gated convolution\<close>


lemma err_bind_Inr:
  "err_bind r f = Inr y \<Longrightarrow> \<exists>v. r = Inr v \<and> f v = Inr y"
  by (cases r) (simp_all add: err_bind_def)


lemma length_scale_rows [simp]: "length (scale_rows m s) = min (length m) (length s)"
  by (simp add: scale_rows_def)




lemma length_gated_mix [simp]:
  "length (gated_mix gate f_hom f_het) = min (length gate) (min (length f_hom) (length f_het))"
  by (simp add: gated_mix_def)



section \<open>The message-passing node function\<close>

text \<open>
  Claim C8, as the code has it. Whenever the node function returns, the output row of
  node \<open>i\<close> is the feed-forward stack applied to the masked concatenation of the node's
  own features with the average over \<open>j\<close> of the adjacency vectors \<open>adj[i, j, :]\<close>. No
  other node's features enter: two inputs that agree on \<open>adj\<close>, the mask and the features
  of node \<open>i\<close> give the same output row \<open>i\<close>.
\<close>

theorem MPNNNodeFunction_averages_adjacency:
  assumes "MPNNNodeFunction_call ffn x adj msk = Inr out" and "i < length x"
  shows "out ! i = ffn (map (\<lambda>v. v * msk ! i) (x ! i @ mean_rows (adj ! i)))
       \<and> (\<forall>x' out'. MPNNNodeFunction_call ffn x' adj msk = Inr out' \<and> x' ! i = x ! i
              \<longrightarrow> out' ! i = out ! i)"
proof -
  have row: "\<And>y res. MPNNNodeFunction_call ffn y adj msk = Inr res \<Longrightarrow> i < length y \<Longrightarrow>
      res ! i = ffn (map (\<lambda>v. v * msk ! i) (y ! i @ mean_rows (adj ! i)))"
  proof -
    fix y res assume c: "MPNNNodeFunction_call ffn y adj msk = Inr res" and i: "i < length y"
    from c have la: "length adj = length y" and lm: "length msk = length y"
      and o: "res = map ffn (scale_rows (map2 (@) y (MPNN_avg_message adj)) msk)"
      by (auto simp: MPNNNodeFunction_call_def split: if_splits)
    from i la lm show "res ! i = ffn (map (\<lambda>v. v * msk ! i) (y ! i @ mean_rows (adj ! i)))"
      unfolding o by (simp add: scale_rows_def MPNN_avg_message_def)
  qed
  have 1: "out ! i = ffn (map (\<lambda>v. v * msk ! i) (x ! i @ mean_rows (adj ! i)))"
    using row [OF assms] .
  have 2: "\<forall>x' out'. MPNNNodeFunction_call ffn x' adj msk = Inr out' \<and> x' ! i = x ! i
              \<longrightarrow> out' ! i = out ! i"
  proof (intro allI impI)
    fix x' out'
    assume h: "MPNNNodeFunction_call ffn x' adj msk = Inr out' \<and> x' ! i = x ! i"
    from assms(1) have "length adj = length x"
      by (auto simp: MPNNNodeFunction_call_def split: if_splits)
    moreover from h have "length adj = length x'"
      by (auto simp: MPNNNodeFunction_call_def split: if_splits)
    ultimately have "i < length x'" using assms(2) by simp
    with h row [of x' out'] have
      "out' ! i = ffn (map (\<lambda>v. v * msk ! i) (x' ! i @ mean_rows (adj ! i)))" by blast
    with h 1 show "out' ! i = out ! i" by simp
  qed
  from 1 2 show ?thesis ..
qed

theorem MPNNNodeFunction_averages_adjacency_witness:
  "MPNNNodeFunction_call (\<lambda>v. v) [[1], [3]] [[[1], [1]], [[1], [1]]] [1, 1]
     = Inr [[1, 1], [3, 1]] \<and>
   MPNNNodeFunction_call (\<lambda>v. v) [[1], [7]] [[[1], [1]], [[1], [1]]] [1, 1]
     = Inr [[1, 1], [7, 1]] \<and>
   [[1, 1], [3, 1::real]] ! 0 = [1, 1] \<and> [[1, 1], [7, 1::real]] ! 0 = [[1, 1], [3, 1]] ! 0"
proof -
  have a: "MPNNNodeFunction_call (\<lambda>v. v) [[1], [3]] [[[1], [1]], [[1], [1]]] [1, 1]
     = Inr [[1, 1], [3, 1]]"
    by (simp add: MPNNNodeFunction_call_def MPNN_avg_message_def mean_rows_def
        scale_rows_def)
  have b: "MPNNNodeFunction_call (\<lambda>v. v) [[1], [7]] [[[1], [1]], [[1], [1]]] [1, 1]
     = Inr [[1, 1], [7, 1]]"
    by (simp add: MPNNNodeFunction_call_def MPNN_avg_message_def mean_rows_def
        scale_rows_def)
  from MPNNNodeFunction_averages_adjacency [OF a, of 0] a b show ?thesis by simp
qed

text \<open>
  Claim C8 as stated, an average of neighbour feature vectors weighted by the adjacency
  entries, fails: with all adjacency entries 1 and node features 1 and 3, the code's
  message is the average of the adjacency entries, 1, while the weighted average of the
  neighbour features is 2.
\<close>

theorem MPNNNodeFunction_weighted_counterexample:
  "MPNN_avg_message [[[1], [1]], [[1], [1]]] = [[1], [1]] \<and>
   spec_weighted_avg_message [[1], [3]] [[[1], [1]], [[1], [1]]] = [[2], [2]] \<and>
   MPNNNodeFunction_call (\<lambda>v. v) [[1], [3]] [[[1], [1]], [[1], [1]]] [1, 1]
     = Inr [[1, 1], [3, 1]]"
  by (simp add: MPNNNodeFunction_call_def MPNN_avg_message_def mean_rows_def
      spec_weighted_avg_message_def scale_rows_def)

section \<open>Unsupported configuration choices\<close>

lemma err_bind_Inl [simp]: "err_bind (Inl e) f = Inl e"
  by (simp add: err_bind_def)

lemma err_bind_Inr_simp [simp]: "err_bind (Inr v) f = f v"
  by (simp add: err_bind_def)

lemma err_bind_error:
  "(\<And>v. \<exists>e. f v = Inl e) \<Longrightarrow> \<exists>e. err_bind r f = Inl e"
  by (cases r) simp_all

text \<open>
  Claim C9, as the code has it. A convolution type that is not one of the two known names
  makes \<open>get_conv_layer\<close> raise \<open>KeyError\<close>, at model construction. The constructor of
  \<open>GraphBuilderDense\<close> does not look at the kernel's value: given a kernel argument and
  otherwise acceptable keyword arguments it constructs the layer, for every kernel. A
  kernel other than \<open>learnable\<close> and \<open>gaussian\<close> raises in the forward pass:
  \<open>GraphBuilderDense.call\<close> never returns for it.
\<close>

theorem unsupported_configuration:
  "(map_of config_dict ''type'' = Some class_name \<and>
      class_name \<noteq> Str ''MPNNNodeFunction'' \<and> class_name \<noteq> Str ''GHConvDense'' \<longrightarrow>
      get_conv_layer config_dict = Inl KeyError)
   \<and> (map_of kwargs ''kernel'' = Some kern \<and>
        Layer_init (filter (\<lambda>(k', v'). k' \<noteq> ''kernel'') kwargs) = Inr () \<longrightarrow>
      (\<exists>gb. GraphBuilderDense_init clip_value_low distance_dim max_num_bins bin_size
               dist_mult kwargs = Inr gb \<and> gb_kernel gb = kern))
   \<and> (gb_kernel gb \<noteq> Str ''learnable'' \<and> gb_kernel gb \<noteq> Str ''gaussian'' \<longrightarrow>
      (\<exists>e. GraphBuilderDense_call gb codebook ffn_dist x_dist x_features msk = Inl e))"
proof (intro conjI impI)
  assume "map_of config_dict ''type'' = Some class_name \<and>
      class_name \<noteq> Str ''MPNNNodeFunction'' \<and> class_name \<noteq> Str ''GHConvDense''"
  then show "get_conv_layer config_dict = Inl KeyError"
    by (simp add: get_conv_layer_def pop_key_def)
next
  assume "map_of kwargs ''kernel'' = Some kern \<and>
        Layer_init (filter (\<lambda>(k', v'). k' \<noteq> ''kernel'') kwargs) = Inr ()"
  then show "\<exists>gb. GraphBuilderDense_init clip_value_low distance_dim max_num_bins bin_size
               dist_mult kwargs = Inr gb \<and> gb_kernel gb = kern"
    by (simp add: GraphBuilderDense_init_def pop_key_def)
next
  assume k: "gb_kernel gb \<noteq> Str ''learnable'' \<and> gb_kernel gb \<noteq> Str ''gaussian''"
  show "\<exists>e. GraphBuilderDense_call gb codebook ffn_dist x_dist x_features msk = Inl e"
  proof (cases "gb_bin_size gb = 0")
    case True
    then show ?thesis by (simp add: GraphBuilderDense_call_def)
  next
    case False
    have last: "\<And>bs xf mf. \<exists>e. err_bind
          (if gb_kernel gb = Str ''learnable''
           then Inr (map2 (map2 (learnable_dm ffn_dist)) (xd :: mat list list) mf)
           else if gb_kernel gb = Str ''gaussian'' then Inl InvalidArgument
           else Inl UnboundLocalError)
          (\<lambda>dm. Inr (bs :: nat list list list, xf :: mat list list, dm, mf)) = Inl e"
      for xd
      using k by simp
    show ?thesis
      unfolding GraphBuilderDense_call_def Let_def
      using False
      by (simp only: if_False) (intro err_bind_error last)
  qed
qed

theorem unsupported_configuration_witness:
  "get_conv_layer [(''type'', Str ''SGConv''), (''activation'', Str ''elu'')] = Inl KeyError \<and>
   GraphBuilderDense_init 0 128 200 2 (1/10) [(''kernel'', Str ''cosine'')]
     = Inr \<lparr>gb_dist_mult = 1/10, gb_distance_dim = 128, gb_max_num_bins = 200,
            gb_bin_size = 2, gb_clip_value_low = 0, gb_kernel = Str ''cosine'',
            gb_has_ffn_dist = False\<rparr> \<and>
   GraphBuilderDense_call
     \<lparr>gb_dist_mult = 1/10, gb_distance_dim = 128, gb_max_num_bins = 200,
      gb_bin_size = 2, gb_clip_value_low = 0, gb_kernel = Str ''cosine'',
      gb_has_ffn_dist = False\<rparr>
     [[1]] (\<lambda>v. v) [[[1], [1], [-1], [1]]] [[[1], [1], [-1], [1]]]
     [[True, True, True, False]]
     = Inl UnboundLocalError"
proof -
  let ?gb = "\<lparr>gb_dist_mult = 1/10, gb_distance_dim = 128, gb_max_num_bins = 200,
      gb_bin_size = 2, gb_clip_value_low = 0, gb_kernel = Str ''cosine'',
      gb_has_ffn_dist = False\<rparr>"
  have c: "lsh_cmul [[1]] 2 [[1], [1], [-1], [1]]
      = Inr [[1, -1], [1, -1], [-1, 1], [1, -1]]"
    by (simp add: lsh_cmul_def matmul_def vecmat_def dot_def)
  have b: "split_indices_to_bins_batch [[[1, -1], [1, -1], [-1, 1], [1, -1]]] 2 2
      [[True, True, True, False]] = Inr [[[0, 1], [2, 3]]]"
    by (simp add: split_indices_to_bins_batch_def split_indices_to_bins_event_def
        bin_idx_masked_def argmax_def reshape2_def argsort_def eval_nat_numeral upt_rec)
  have c': "lsh_cmul [[1]] (Suc (Suc 0)) [[1], [1], [-1], [1]]
      = Inr [[1, -1], [1, -1], [-1, 1], [1, -1]]"
    unfolding numeral_2_eq_2 [symmetric] by (rule c)
  have b': "split_indices_to_bins_batch [[[1, -1], [1, -1], [-1, 1], [1, -1]]] (Suc (Suc 0)) 2
      [[True, True, True, False]] = Inr [[[0, 1], [2, 3]]]"
    using b by (simp only: numeral_2_eq_2 [symmetric])
  have call: "GraphBuilderDense_call ?gb [[1]] (\<lambda>v. v) [[[1], [1], [-1], [1]]]
      [[[1], [1], [-1], [1]]] [[True, True, True, False]] = Inl UnboundLocalError"
    unfolding GraphBuilderDense_call_def Let_def
    by (simp add: c' b' gather_batch_def gather_def)
  have i: "GraphBuilderDense_init 0 128 200 2 (1/10) [(''kernel'', Str ''cosine'')] = Inr ?gb"
    by (simp add: GraphBuilderDense_init_def pop_key_def Layer_init_def)
  from unsupported_configuration
    [of "[(''type'', Str ''SGConv''), (''activation'', Str ''elu'')]" "Str ''SGConv''"
        "[(''kernel'', Str ''cosine'')]" "Str ''cosine''" 0 128 200 2 "1/10" ?gb
        "[[1]]" "\<lambda>v. v" "[[[1], [1], [-1], [1]]]" "[[[1], [1], [-1], [1]]]"
        "[[True, True, True, False]]"]
    call i
  show ?thesis by (simp add: Layer_init_def)
qed

text \<open>
  Claim C9 as stated fails for the graph kernel: constructing \<open>GraphBuilderDense\<close> with
  an unknown kernel name raises nothing and returns the layer.
\<close>

theorem unknown_kernel_constructs_counterexample:
  "GraphBuilderDense_init 0 128 200 128 (1/10) [(''kernel'', Str ''cosine'')]
     = Inr \<lparr>gb_dist_mult = 1/10, gb_distance_dim = 128, gb_max_num_bins = 200,
            gb_bin_size = 128, gb_clip_value_low = 0, gb_kernel = Str ''cosine'',
            gb_has_ffn_dist = False\<rparr>"
  by (simp add: GraphBuilderDense_init_def pop_key_def Layer_init_def)

section \<open>Top-k neighbour selection\<close>

lemma sequence_err_set:
  assumes "sequence_err rs = Inr xs" and "x \<in> set xs"
  shows "Inr x \<in> set rs"
proof -
  from assms(2) obtain i where i: "i < length xs" "xs ! i = x" by (auto simp: in_set_conv_nth)
  from sequence_err_InrD [OF assms(1)] i have "i < length rs" "rs ! i = Inr x" by auto
  then show ?thesis by (metis nth_mem)
qed

lemma top_k_props:
  assumes "top_k k row = Inr tk"
  shows "length tk = k \<and> (\<forall>r. r + 1 < k \<longrightarrow> fst (tk ! (r + 1)) \<le> fst (tk ! r)) \<and>
         (\<forall>(v, j) \<in> set tk. j < length row \<and> v = row ! j)"
proof -
  let ?S = "sort_key (\<lambda>(v, j). - v) (zip row [0..<length row])"
  from assms have k: "k \<le> length row" and tk: "tk = take k ?S"
    by (auto simp: top_k_def split: if_splits)
  have lS: "length ?S = length row" by simp
  have len: "length tk = k" using tk k lS by simp
  have srt: "sorted (map (\<lambda>(v, j). - v) ?S)" by (rule sorted_sort_key)
  have mono: "\<forall>r. r + 1 < k \<longrightarrow> fst (tk ! (r + 1)) \<le> fst (tk ! r)"
  proof (intro allI impI)
    fix r assume r: "r + 1 < k"
    then have a: "r < length ?S" "r + 1 < length ?S" using k lS by simp_all
    from srt a have "map (\<lambda>(v, j). - v) ?S ! r \<le> map (\<lambda>(v, j). - v) ?S ! (r + 1)"
      by (intro sorted_nth_mono) simp_all
    then have "fst (?S ! (r + 1)) \<le> fst (?S ! r)"
      using a by (simp add: case_prod_beta)
    moreover have "tk ! r = ?S ! r" "tk ! (r + 1) = ?S ! (r + 1)" using tk r by simp_all
    ultimately show "fst (tk ! (r + 1)) \<le> fst (tk ! r)" by simp
  qed
  have mem: "\<forall>(v, j) \<in> set tk. j < length row \<and> v = row ! j"
  proof -
    have "set tk \<subseteq> set (zip row [0..<length row])"
      unfolding tk using set_take_subset [of k ?S] by simp
    then show ?thesis by (auto simp: set_zip)
  qed
  from len mono mem show ?thesis by blast
qed

lemma bin_edges_props:
  assumes "bin_edges subidx tks = Inr es"
  shows "map fst es = subidx \<and>
         (\<forall>(src, tk) \<in> set es. \<exists>tk0 \<in> set tks. map fst tk = map fst tk0)"
proof -
  from assms have l: "length subidx = length tks"
    and es: "es = map2 (\<lambda>src tk. (src, map (\<lambda>(v, j). (v, subidx ! j)) tk)) subidx tks"
    by (auto simp: bin_edges_def split: if_splits)
  have 1: "map fst es = subidx"
    unfolding es using l by (intro nth_equalityI) simp_all
  have 2: "\<forall>(src, tk) \<in> set es. \<exists>tk0 \<in> set tks. map fst tk = map fst tk0"
  proof (clarify)
    fix src tk assume "(src, tk) \<in> set es"
    then obtain a tk0 where "(a, tk0) \<in> set (zip subidx tks)"
      and t: "tk = map (\<lambda>(v, j). (v, subidx ! j)) tk0"
      unfolding es by auto
    then have "tk0 \<in> set tks" by (meson set_zip_rightD)
    moreover have "map fst tk = map fst tk0" unfolding t by (simp add: case_prod_beta comp_def)
    ultimately show "\<exists>tk0 \<in> set tks. map fst tk = map fst tk0" by blast
  qed
  from 1 2 show ?thesis ..
qed

lemma knn_rows_props:
  assumes "knn_rows k dist_mult subindices subpoints = Inr rows"
  shows "map fst rows = concat subindices \<and>
         (\<forall>(src, tk) \<in> set rows. length tk = k \<and>
            (\<forall>r. r + 1 < k \<longrightarrow> fst (tk ! (r + 1)) \<le> fst (tk ! r)))"
proof -
  from assms have ls: "length subindices = length subpoints"
    by (auto simp: knn_rows_def split: if_splits)
  with assms have b: "err_bind (sequence_err
        (map (\<lambda>points. sequence_err (map (top_k k) (similarity dist_mult points))) subpoints))
      (\<lambda>top. err_bind (sequence_err (map2 bin_edges subindices top)) (\<lambda>edges.
          Inr (concat edges))) = Inr rows"
    by (simp add: knn_rows_def)
  from err_bind_Inr [OF b] obtain top where
    top: "sequence_err
        (map (\<lambda>points. sequence_err (map (top_k k) (similarity dist_mult points))) subpoints)
        = Inr top"
    and b2: "err_bind (sequence_err (map2 bin_edges subindices top)) (\<lambda>edges.
          Inr (concat edges)) = Inr rows"
    by blast
  from err_bind_Inr [OF b2] obtain edges where
    edges: "sequence_err (map2 bin_edges subindices top) = Inr edges"
    and rows: "rows = concat edges"
    by auto
  from sequence_err_InrD [OF top] have lt: "length top = length subpoints"
    and tn: "\<forall>b < length subpoints.
        sequence_err (map (top_k k) (similarity dist_mult (subpoints ! b))) = Inr (top ! b)"
    by auto
  from sequence_err_InrD [OF edges] ls lt have le: "length edges = length subindices"
    and en: "\<forall>b < length subindices. bin_edges (subindices ! b) (top ! b) = Inr (edges ! b)"
    by auto
  have tkp: "\<And>b tk0. b < length subpoints \<Longrightarrow> tk0 \<in> set (top ! b) \<Longrightarrow>
      length tk0 = k \<and> (\<forall>r. r + 1 < k \<longrightarrow> fst (tk0 ! (r + 1)) \<le> fst (tk0 ! r))"
  proof -
    fix b tk0 assume b: "b < length subpoints" and m: "tk0 \<in> set (top ! b)"
    from tn b have "sequence_err (map (top_k k) (similarity dist_mult (subpoints ! b)))
        = Inr (top ! b)" by blast
    from sequence_err_set [OF this m] obtain row where "top_k k row = Inr tk0" by auto
    from top_k_props [OF this]
    show "length tk0 = k \<and> (\<forall>r. r + 1 < k \<longrightarrow> fst (tk0 ! (r + 1)) \<le> fst (tk0 ! r))"
      by blast
  qed
  have 1: "map fst rows = concat subindices"
  proof -
    have "map (map fst) edges = subindices"
    proof (rule nth_equalityI)
      show "length (map (map fst) edges) = length subindices" using le by simp
    next
      fix b assume "b < length (map (map fst) edges)"
      then have b: "b < length subindices" using le by simp
      with en have "bin_edges (subindices ! b) (top ! b) = Inr (edges ! b)" by blast
      from bin_edges_props [OF this] b le
      show "map (map fst) edges ! b = subindices ! b" by simp
    qed
    then show ?thesis unfolding rows by (simp add: map_concat)
  qed
  have 2: "\<forall>(src, tk) \<in> set rows. length tk = k \<and>
            (\<forall>r. r + 1 < k \<longrightarrow> fst (tk ! (r + 1)) \<le> fst (tk ! r))"
  proof (clarify)
    fix src tk assume "(src, tk) \<in> set rows"
    then obtain es where es: "es \<in> set edges" "(src, tk) \<in> set es" unfolding rows by auto
    then obtain b where b: "b < length edges" "edges ! b = es" by (auto simp: in_set_conv_nth)
    with en le have "bin_edges (subindices ! b) (top ! b) = Inr es" by auto
    from bin_edges_props [OF this] es(2) obtain tk0 where
      tk0: "tk0 \<in> set (top ! b)" "map fst tk = map fst tk0" by blast
    from b le ls have "b < length subpoints" by simp
    from tkp [OF this tk0(1)] have p: "length tk0 = k"
      "\<forall>r. r + 1 < k \<longrightarrow> fst (tk0 ! (r + 1)) \<le> fst (tk0 ! r)" by auto
    from tk0(2) have l: "length tk = length tk0" by (metis length_map)
    have f: "\<And>r. r < k \<Longrightarrow> fst (tk ! r) = fst (tk0 ! r)"
    proof -
      fix r assume "r < k"
      then have "r < length tk" "r < length tk0" using l p(1) by simp_all
      then have "map fst tk ! r = fst (tk ! r)" "map fst tk0 ! r = fst (tk0 ! r)" by simp_all
      with tk0(2) show "fst (tk ! r) = fst (tk0 ! r)" by simp
    qed
    show "length tk = k \<and> (\<forall>r. r + 1 < k \<longrightarrow> fst (tk ! (r + 1)) \<le> fst (tk ! r))"
    proof (intro conjI allI impI)
      show "length tk = k" using l p(1) by simp
    next
      fix r assume r: "r + 1 < k"
      then have "fst (tk ! (r + 1)) = fst (tk0 ! (r + 1))" "fst (tk ! r) = fst (tk0 ! r)"
        using f by simp_all
      with p(2) r show "fst (tk ! (r + 1)) \<le> fst (tk ! r)" by simp
    qed
  qed
  from 1 2 show ?thesis ..
qed
lemma length_concat_blocks:
  "(\<forall>i < k. length (g i) = N) \<Longrightarrow> length (concat (map g [0..<k])) = k * N"
  by (induction k) simp_all

lemma nth_concat_blocks:
  "(\<forall>i < k. length (g i) = N) \<Longrightarrow> r < k \<Longrightarrow> p < N \<Longrightarrow>
   concat (map g [0..<k]) ! (r * N + p) = g r ! p"
proof (induction k)
  case 0
  then show ?case by simp
next
  case (Suc k)
  then have all: "\<forall>i < k. length (g i) = N" and lk: "length (g k) = N" by simp_all
  have len: "length (concat (map g [0..<k])) = k * N"
    using all by (rule length_concat_blocks)
  show ?case
  proof (cases "r < k")
    case True
    then have "r * N + p < k * N"
    proof -
      from True have "Suc r \<le> k" by simp
      then have "Suc r * N \<le> k * N" by (rule mult_le_mono1)
      with Suc.prems(3) show ?thesis by simp
    qed
    with len Suc.IH [OF all True Suc.prems(3)] show ?thesis by (simp add: nth_append)
  next
    case False
    with Suc.prems(2) have "r = k" by simp
    with len show ?thesis by (simp add: nth_append)
  qed
qed

lemma filter_concat_blocks:
  "(\<forall>i < k. length (filter P (g i)) \<le> c) \<Longrightarrow>
   length (filter P (concat (map g [0..<k]))) \<le> k * c"
proof (induction k)
  case 0
  then show ?case by simp
next
  case (Suc k)
  then have "length (filter P (concat (map g [0..<k]))) \<le> k * c"
    and "length (filter P (g k)) \<le> c" by simp_all
  then show ?case by simp
qed

lemma filter_distinct_key:
  "distinct (map f xs) \<Longrightarrow> length (filter (\<lambda>x. f x = s) xs) \<le> 1"
proof (induction xs)
  case Nil
  then show ?case by simp
next
  case (Cons x xs)
  show ?case
  proof (cases "f x = s")
    case True
    with Cons.prems have "s \<notin> f ` set xs" by auto
    then have "filter (\<lambda>x. f x = s) xs = []" by (auto simp: filter_empty_conv)
    with True show ?thesis by simp
  next
    case False
    with Cons show ?thesis by simp
  qed
qed

text \<open>
  Claim C5. Whenever the neighbour selection of the sparse graph builder returns, for
  \<open>N\<close> source elements and \<open>k = num_neighbors\<close> it emits \<open>k * N\<close> edges and values,
  rank by rank: the edge at position \<open>r * N + p\<close> is the rank-\<open>r\<close> neighbour of the
  source element at position \<open>p\<close> of the flattened bins. For every source element the
  similarity at rank \<open>r + 1\<close> is at most the similarity at rank \<open>r\<close>. When the bins hold
  every element once, no source element has more than \<open>k\<close> edges.
\<close>

theorem top_k_edges_bounded_sorted:
  assumes "subpoints_to_sparse_matrix k dist_mult subindices subpoints = Inr (inds, vals)"
  shows "length inds = k * length (concat subindices)
       \<and> length vals = k * length (concat subindices)
       \<and> (\<forall>p r. p < length (concat subindices) \<and> r < k \<longrightarrow>
             fst (inds ! (r * length (concat subindices) + p)) = concat subindices ! p)
       \<and> (\<forall>p r. p < length (concat subindices) \<and> r + 1 < k \<longrightarrow>
             vals ! ((r + 1) * length (concat subindices) + p)
               \<le> vals ! (r * length (concat subindices) + p))
       \<and> (distinct (concat subindices) \<longrightarrow>
             (\<forall>s. length (filter (\<lambda>e. fst e = s) inds) \<le> k))"
proof -
  define N where "N = length (concat subindices)"
  from err_bind_Inr [OF assms [unfolded subpoints_to_sparse_matrix_def]] obtain rows where
    rows: "knn_rows k dist_mult subindices subpoints = Inr rows"
    and iv: "inds = concat (map (\<lambda>i. map (\<lambda>(src, tk). (src, snd (tk ! i))) rows) [0..<k])"
            "vals = concat (map (\<lambda>i. map (\<lambda>(src, tk). fst (tk ! i)) rows) [0..<k])"
    by auto
  from knn_rows_props [OF rows] have src: "map fst rows = concat subindices"
    and tk: "\<forall>(src, tk) \<in> set rows. length tk = k \<and>
            (\<forall>r. r + 1 < k \<longrightarrow> fst (tk ! (r + 1)) \<le> fst (tk ! r))"
    by auto
  from src have lr: "length rows = N" unfolding N_def by (metis length_map)
  let ?gi = "\<lambda>i. map (\<lambda>(src, tk). (src, snd (tk ! i))) rows"
  let ?gv = "\<lambda>i. map (\<lambda>(src, tk). fst (tk ! i)) rows"
  have li: "\<forall>i < k. length (?gi i) = N" and lv: "\<forall>i < k. length (?gv i) = N"
    using lr by simp_all
  have 1: "length inds = k * N" unfolding iv using li by (rule length_concat_blocks)
  have 2: "length vals = k * N" unfolding iv using lv by (rule length_concat_blocks)
  have 3: "\<forall>p r. p < N \<and> r < k \<longrightarrow> fst (inds ! (r * N + p)) = concat subindices ! p"
  proof (intro allI impI)
    fix p r assume h: "p < N \<and> r < k"
    then have "inds ! (r * N + p) = ?gi r ! p"
      unfolding iv using nth_concat_blocks [OF li] by blast
    also have "\<dots> = (fst (rows ! p), snd (snd (rows ! p) ! r))"
      using h lr by (simp add: case_prod_beta)
    finally have "fst (inds ! (r * N + p)) = fst (rows ! p)" by simp
    also have "\<dots> = map fst rows ! p" using h lr by simp
    finally show "fst (inds ! (r * N + p)) = concat subindices ! p" using src by simp
  qed
  have val: "\<And>p r. p < N \<Longrightarrow> r < k \<Longrightarrow> vals ! (r * N + p) = fst (snd (rows ! p) ! r)"
  proof -
    fix p r assume p: "p < N" and r: "r < k"
    then have "vals ! (r * N + p) = ?gv r ! p"
      unfolding iv using nth_concat_blocks [OF lv] by blast
    then show "vals ! (r * N + p) = fst (snd (rows ! p) ! r)"
      using p lr by (simp add: case_prod_beta)
  qed
  have 4: "\<forall>p r. p < N \<and> r + 1 < k \<longrightarrow> vals ! ((r + 1) * N + p) \<le> vals ! (r * N + p)"
  proof (intro allI impI)
    fix p r assume h: "p < N \<and> r + 1 < k"
    then have "rows ! p \<in> set rows" using lr by simp
    with tk have "\<forall>r. r + 1 < k \<longrightarrow> fst (snd (rows ! p) ! (r + 1)) \<le> fst (snd (rows ! p) ! r)"
      by (auto simp: case_prod_beta)
    with h have "fst (snd (rows ! p) ! (r + 1)) \<le> fst (snd (rows ! p) ! r)" by blast
    moreover from h have "vals ! ((r + 1) * N + p) = fst (snd (rows ! p) ! (r + 1))"
      using val [of p "r + 1"] by simp
    moreover from h have "vals ! (r * N + p) = fst (snd (rows ! p) ! r)"
      using val [of p r] by simp
    ultimately show "vals ! ((r + 1) * N + p) \<le> vals ! (r * N + p)" by simp
  qed
  have 5: "distinct (concat subindices) \<longrightarrow>
      (\<forall>s. length (filter (\<lambda>e. fst e = s) inds) \<le> k)"
  proof (intro impI allI)
    fix s assume d: "distinct (concat subindices)"
    then have dr: "distinct (map fst rows)" using src by simp
    have "\<forall>i < k. length (filter (\<lambda>e. fst e = s) (?gi i)) \<le> 1"
    proof (intro allI impI)
      fix i
      have "filter (\<lambda>e. fst e = s) (?gi i)
          = map (\<lambda>(src, tk). (src, snd (tk ! i))) (filter (\<lambda>row. fst row = s) rows)"
        by (simp add: filter_map comp_def case_prod_beta)
      then have "length (filter (\<lambda>e. fst e = s) (?gi i))
          = length (filter (\<lambda>row. fst row = s) rows)" by simp
      with filter_distinct_key [OF dr, of s]
      show "length (filter (\<lambda>e. fst e = s) (?gi i)) \<le> 1" by simp
    qed
    from filter_concat_blocks [of k "\<lambda>e. fst e = s" ?gi 1, OF this]
    show "length (filter (\<lambda>e. fst e = s) inds) \<le> k" unfolding iv by simp
  qed
  from 1 2 3 4 5 show ?thesis unfolding N_def by (intro conjI)
qed

theorem top_k_edges_bounded_sorted_witness:
  "subpoints_to_sparse_matrix 2 (1/10) [[1, 0], [2, 3]] [[[0], [1]], [[2], [0]]] =
     Inr ([(1, 1), (0, 0), (2, 2), (3, 3), (1, 0), (0, 1), (2, 3), (3, 2)],
          [exp (- (1/10) * sqrt (1 / 1000000)), exp (- (1/10) * sqrt (1 / 1000000)),
           exp (- (1/10) * sqrt (1 / 1000000)), exp (- (1/10) * sqrt (1 / 1000000)),
           exp (- (1/10) * sqrt 1), exp (- (1/10) * sqrt 1),
           exp (- (1/10) * sqrt 4), exp (- (1/10) * sqrt 4)]) \<and>
   length [(1, 1), (0, 0), (2, 2), (3, 3), (1, 0), (0, 1), (2, 3), (3, 2::nat)]
     = 2 * length (concat [[1, 0], [2, 3::nat]]) \<and>
   fst ([(1, 1), (0, 0), (2, 2), (3, 3), (1, 0), (0, 1), (2, 3), (3, 2::nat)] ! (1 * 4 + 2))
     = concat [[1, 0], [2, 3::nat]] ! 2 \<and>
   exp (- (1/10) * sqrt 4) \<le> exp (- (1/10) * sqrt (1 / 1000000 :: real)) \<and>
   distinct (concat [[1, 0], [2, 3::nat]]) \<and>
   length (filter (\<lambda>e. fst e = 3)
             [(1, 1), (0, 0), (2, 2), (3, 3), (1, 0), (0, 1), (2, 3), (3::nat, 2::nat)]) \<le> 2"
proof -
  define a :: real where "a = exp (- (1/10) * sqrt (1 / 1000000))"
  define b :: real where "b = exp (- (1/10) * sqrt 1)"
  define c :: real where "c = exp (- (1/10) * sqrt 4)"
  have "sqrt (1 / 1000000) < sqrt 1" by (simp del: real_sqrt_one)
  then have ba: "b < a" unfolding a_def b_def by simp
  have cb: "c < b" unfolding b_def c_def by simp
  have s0: "similarity (1/10) [[0], [1]] = [[a, b], [b, a]]"
    by (simp add: similarity_def pairwise_gaussian_dist_def dot_def a_def b_def)
  have s1: "similarity (1/10) [[2], [0]] = [[a, c], [c, a]]"
    by (simp add: similarity_def pairwise_gaussian_dist_def dot_def a_def c_def)
  have t1: "top_k 2 [a, b] = Inr [(a, 0), (b, 1)]"
    using ba by (simp add: top_k_def numeral_2_eq_2)
  have t2: "top_k 2 [b, a] = Inr [(a, 1), (b, 0)]"
    using ba by (simp add: top_k_def numeral_2_eq_2)
  have t3: "top_k 2 [a, c] = Inr [(a, 0), (c, 1)]"
    using ba cb by (simp add: top_k_def numeral_2_eq_2)
  have t4: "top_k 2 [c, a] = Inr [(a, 1), (c, 0)]"
    using ba cb by (simp add: top_k_def numeral_2_eq_2)
  have k: "knn_rows 2 (1/10) [[1, 0], [2, 3]] [[[0], [1]], [[2], [0]]]
      = Inr [(1, [(a, 1), (b, 0)]), (0, [(a, 0), (b, 1)]),
             (2, [(a, 2), (c, 3)]), (3, [(a, 3), (c, 2)])]"
    by (simp add: knn_rows_def s0 s1 t1 t2 t3 t4 err_bind_def bin_edges_def)
  have r: "subpoints_to_sparse_matrix 2 (1/10) [[1, 0], [2, 3]] [[[0], [1]], [[2], [0]]] =
     Inr ([(1, 1), (0, 0), (2, 2), (3, 3), (1, 0), (0, 1), (2, 3), (3, 2)],
          [a, a, a, a, b, b, c, c])"
    unfolding subpoints_to_sparse_matrix_def k
    by (simp add: err_bind_def numeral_2_eq_2 eval_nat_numeral)
  from top_k_edges_bounded_sorted [OF r]
  have m: "\<forall>p r. p < length (concat [[1, 0], [2, 3::nat]]) \<and> r + 1 < 2 \<longrightarrow>
      [a, a, a, a, b, b, c, c] ! ((r + 1) * length (concat [[1, 0], [2, 3::nat]]) + p)
        \<le> [a, a, a, a, b, b, c, c] ! (r * length (concat [[1, 0], [2, 3::nat]]) + p)"
    by (elim conjE)
  from m [rule_format, of 2 0] have "c \<le> a" by simp
  with r show ?thesis unfolding a_def b_def c_def by simp
qed

end
